theory Spec2Isabelle
  imports Main "HOL-Library.AList"
begin

section \<open>Values\<close>

text \<open>
  The JavaScript values that flow through \<^verbatim>\<open>index.js\<close>: parameters, queries, documents and
  the values handed to callbacks. Numbers are modelled as integers. An object is the list of
  its own properties in insertion order (no key occurs twice); \<open>JOid\<close> is a mongo ObjectId,
  an object that is not a plain object.
\<close>

datatype json =
    Undefined
  | Null
  | JBool bool
  | JNum int
  | JStr string
  | JOid string
  | JArr "json list"
  | JObj "(string \<times> json) list"

type_synonym obj = "(string \<times> json) list"

text \<open>Truthiness, as \<^verbatim>\<open>if (x)\<close>, \<^verbatim>\<open>x || y\<close> and \<^verbatim>\<open>x ? a : b\<close> read a value.\<close>

fun truthy :: "json \<Rightarrow> bool" where
  "truthy Undefined = False"
| "truthy Null = False"
| "truthy (JBool b) = b"
| "truthy (JNum n) = (n \<noteq> 0)"
| "truthy (JStr s) = (s \<noteq> [])"
| "truthy (JOid s) = True"
| "truthy (JArr xs) = True"
| "truthy (JObj kvs) = True"

text \<open>Property read \<^verbatim>\<open>o[k]\<close> on an object given by its own properties.\<close>

definition getprop :: "obj \<Rightarrow> string \<Rightarrow> json" where
  "getprop kvs k = (case map_of kvs k of None \<Rightarrow> Undefined | Some v \<Rightarrow> v)"

text \<open>
  The names that a read \<^verbatim>\<open>o[k]\<close> finds on every object literal of the program although
  they are not among its own properties: the members of \<^verbatim>\<open>Object.prototype\<close>.
\<close>

definition Object_prototype :: "string list" where
  "Object_prototype =
     [''constructor'', ''toString'', ''toLocaleString'', ''valueOf'', ''hasOwnProperty'',
      ''isPrototypeOf'', ''propertyIsEnumerable'', ''__proto__'', ''__defineGetter__'',
      ''__defineSetter__'', ''__lookupGetter__'', ''__lookupSetter__'']"

text \<open>
  lodash's null-safe property read (\<^verbatim>\<open>_.get(x, k)\<close>, the accessor of \<^verbatim>\<open>_.pluck\<close>):
  a value that is not an object has none of the properties the program asks for.
\<close>

fun get :: "json \<Rightarrow> string \<Rightarrow> json" where
  "get (JObj kvs) k = getprop kvs k"
| "get v k = Undefined"

text \<open>\<^verbatim>\<open>_.compact\<close>: the truthy elements, in order.\<close>

definition compact :: "json list \<Rightarrow> json list" where
  "compact xs = filter truthy xs"

text \<open>\<^verbatim>\<open>_.pluck(docs, k)\<close>.\<close>

definition pluck :: "json list \<Rightarrow> string \<Rightarrow> json list" where
  "pluck docs k = map (\<lambda>d. get d k) docs"

text \<open>
  One argument of \<^verbatim>\<open>[].concat(a, b)\<close>: an array is spliced in, any other value (also
  \<^verbatim>\<open>undefined\<close>) becomes one element.
\<close>

fun concat_arg :: "json \<Rightarrow> json list" where
  "concat_arg (JArr xs) = xs"
| "concat_arg v = [v]"

section \<open>lodash on values\<close>

text \<open>
  The program calls lodash 3 (\<^verbatim>\<open>_.pluck\<close> and \<^verbatim>\<open>_.get\<close> exist together only there). Each
  function below is the documented behaviour of the lodash function named, on the values of
  type \<open>json\<close>.
\<close>

text \<open>Decimal rendering of an array index, as a property name.\<close>

definition digit :: "nat \<Rightarrow> char" where
  "digit d = ''0123456789'' ! d"

fun decimal :: "nat \<Rightarrow> string" where
  "decimal n = (if n < 10 then [digit n] else decimal (n div 10) @ [digit (n mod 10)])"

declare decimal.simps [simp del]

text \<open>
  The own enumerable properties of a value, as \<^verbatim>\<open>_.transform\<close>, \<^verbatim>\<open>_.omit\<close> and \<^verbatim>\<open>_.map\<close>
  walk them: the properties of an object, the indexed elements of an array, the indexed
  characters of a string, nothing for any other value.
\<close>

fun entries :: "json \<Rightarrow> (string \<times> json) list" where
  "entries (JObj kvs) = kvs"
| "entries (JArr xs) = zip (map decimal [0..<length xs]) xs"
| "entries (JStr s) = zip (map decimal [0..<length s]) (map (\<lambda>c. JStr [c]) s)"
| "entries v = []"

text \<open>\<^verbatim>\<open>_.map(v, undefined)\<close>: with no iteratee, lodash maps with the identity.\<close>

definition elems :: "json \<Rightarrow> json list" where
  "elems v = map snd (entries v)"

text \<open>
  \<^verbatim>\<open>_.compact(v)\<close> on any value: it reads \<^verbatim>\<open>v.length\<close> (zero for a falsy \<open>v\<close>) and keeps
  the truthy elements; an object is read as having no \<^verbatim>\<open>length\<close>.
\<close>

fun compact_val :: "json \<Rightarrow> json list" where
  "compact_val (JArr xs) = compact xs"
| "compact_val (JStr s) = compact (map (\<lambda>c. JStr [c]) s)"
| "compact_val v = []"

text \<open>\<^verbatim>\<open>_.pluck(v, k)\<close> on any value.\<close>

definition pluck_val :: "json \<Rightarrow> string \<Rightarrow> json list" where
  "pluck_val v k = pluck (elems v) k"

text \<open>\<^verbatim>\<open>_.omit(v, k)\<close>: a new plain object with the properties of \<open>v\<close> other than \<open>k\<close>.\<close>

definition omit :: "json \<Rightarrow> string \<Rightarrow> obj" where
  "omit v k = AList.delete k (entries v)"

text \<open>
  \<^verbatim>\<open>_.extend(dest, src)\<close> assigns every property of \<open>src\<close>; \<^verbatim>\<open>_.defaults(dest, src)\<close>
  assigns those that read \<^verbatim>\<open>undefined\<close> in \<open>dest\<close>. An assignment to an existing
  property keeps its place, a new property comes last.
\<close>

fun extend_obj :: "obj \<Rightarrow> obj \<Rightarrow> obj" where
  "extend_obj dest [] = dest"
| "extend_obj dest ((k, v) # src) = extend_obj (AList.update k v dest) src"

fun defaults :: "obj \<Rightarrow> obj \<Rightarrow> obj" where
  "defaults dest [] = dest"
| "defaults dest ((k, v) # src) =
     defaults (if getprop dest k = Undefined then AList.update k v dest else dest) src"

text \<open>
  \<^verbatim>\<open>_.merge(dest, src)\<close>, lodash 3's \<^verbatim>\<open>baseMerge\<close> and \<^verbatim>\<open>baseMergeDeep\<close>. For each
  property (or index) of the source: a source array is merged into the destination's array
  at that key (into a copy of its characters when the destination holds a string, into a new
  array otherwise); a plain source object is merged into the destination's plain object at
  that key (into a new object otherwise); any other source object replaces the destination's
  value; a primitive replaces it unless it is \<^verbatim>\<open>undefined\<close>, which changes nothing in an
  object and fills a missing position of an array. \<open>merge_at value srcValue\<close> is the value
  the key holds afterwards.
\<close>

fun merge_at :: "json \<Rightarrow> json \<Rightarrow> json"
  and merge_arr :: "json list \<Rightarrow> json list \<Rightarrow> json list"
  and merge_obj :: "obj \<Rightarrow> obj \<Rightarrow> obj" where
  "merge_at value (JArr src) =
     JArr (merge_arr (case value of JArr vs \<Rightarrow> vs
                      | JStr s \<Rightarrow> map (\<lambda>c. JStr [c]) s
                      | _ \<Rightarrow> []) src)"
| "merge_at value (JObj src) =
     JObj (merge_obj (case value of JObj kvs \<Rightarrow> kvs | _ \<Rightarrow> []) src)"
| "merge_at value (JOid i) = JOid i"
| "merge_at value Undefined = value"
| "merge_at value Null = Null"
| "merge_at value (JBool b) = JBool b"
| "merge_at value (JNum n) = JNum n"
| "merge_at value (JStr s) = JStr s"
| "merge_arr dest [] = dest"
| "merge_arr [] (sv # src) = merge_at Undefined sv # merge_arr [] src"
| "merge_arr (value # dest) (sv # src) = merge_at value sv # merge_arr dest src"
| "merge_obj dest [] = dest"
| "merge_obj dest ((k, sv) # src) =
     merge_obj (if sv = Undefined then dest
                else AList.update k (merge_at (getprop dest k) sv) dest) src"

section \<open>Errors\<close>

text \<open>
  \<open>Error m\<close> is \<^verbatim>\<open>new Error(m)\<close> as thrown by \<^verbatim>\<open>Tenge._assert\<close>, \<open>TypeError m\<close> the
  engine's own exception, \<open>Passed e\<close> a truthy value that the store driver or a hook handed
  to its callback as \<^verbatim>\<open>err\<close>.
\<close>

datatype error = Error string | TypeError string | Passed json

text \<open>\<^verbatim>\<open>Tenge._assert(condition, message)\<close>.\<close>

definition assert :: "json \<Rightarrow> string \<Rightarrow> error option" where
  "assert condition message =
     (if \<not> truthy condition then Some (Error (''Tenge: '' @ message)) else None)"

text \<open>
  How a call ends: \<open>Threw e\<close> when an exception leaves the called function, \<open>Failed e\<close>
  when its callback gets \<open>e\<close> as \<^verbatim>\<open>err\<close>, \<open>Done x\<close> when its callback gets the data \<open>x\<close>.
  An exception thrown inside a step of a flowy chain \<^verbatim>\<open>F(step, ..., cb)\<close> is caught by the
  chain and reaches \<^verbatim>\<open>cb\<close> as \<^verbatim>\<open>err\<close>; an \<^verbatim>\<open>err\<close> given to a slot of a step skips the
  later steps and reaches \<^verbatim>\<open>cb\<close>.
\<close>

datatype 'a outcome = Threw error | Failed error | Done 'a

section \<open>Query normalisation\<close>

text \<open>
  The members of the constructor function \<^verbatim>\<open>Tenge\<close> are \<^verbatim>\<open>connect\<close>, \<^verbatim>\<open>_db\<close> and
  \<^verbatim>\<open>_assert\<close>. \<^verbatim>\<open>makeOID\<close> is assigned to \<^verbatim>\<open>Tenge.prototype\<close> only (line 132), so the
  expression \<^verbatim>\<open>Tenge.makeOID\<close> of the transformers \<^verbatim>\<open>_id\<close> and \<^verbatim>\<open>_ids\<close> (lines 505 and
  508) reads \<^verbatim>\<open>undefined\<close>: the static member is absent (\<open>None\<close>).
\<close>

definition Tenge_makeOID :: "(json \<Rightarrow> json) option" where
  "Tenge_makeOID = None"

text \<open>Calling a member, \<^verbatim>\<open>f(v)\<close>: a \<^verbatim>\<open>TypeError\<close> when \<open>f\<close> is \<^verbatim>\<open>undefined\<close>.\<close>

definition call_member :: "string \<Rightarrow> (json \<Rightarrow> json) option \<Rightarrow> json \<Rightarrow> error + json" where
  "call_member name f v =
     (case f of None \<Rightarrow> Inl (TypeError (name @ '' is not a function'')) | Some g \<Rightarrow> Inr (g v))"

text \<open>\<^verbatim>\<open>_.map(v, f)\<close>: lodash maps with the identity when \<open>f\<close> is \<^verbatim>\<open>undefined\<close>.\<close>

definition map_val :: "json \<Rightarrow> (json \<Rightarrow> json) option \<Rightarrow> json list" where
  "map_val v f = (case f of None \<Rightarrow> elems v | Some g \<Rightarrow> map g (elems v))"

text \<open>
  \<^verbatim>\<open>Tenge.prototype._queryTransformers\<close>: the transformer registered under a key of
  \<^verbatim>\<open>$$\<close>, if any. A transformer returns the fragment to merge, or throws. The model covers
  the keys of \<^verbatim>\<open>$$\<close> that are not in \<open>Object_prototype\<close>. For a key that names a member
  inherited from \<^verbatim>\<open>Object.prototype\<close> the code finds that member and calls it as the
  transformer (\<^verbatim>\<open>$$.constructor\<close> merges \<^verbatim>\<open>Object(val)\<close> into the query); the model
  does not follow that call and has no transformer for the key, so that what is proved below
  of a query that \<open>makeQuery\<close> returns is proved of queries without such a key.
\<close>

definition queryTransformers :: "string \<Rightarrow> (json \<Rightarrow> error + obj) option" where
  "queryTransformers key =
     (if key = ''id'' then Some (\<lambda>val. Inr [(''id'', val)])
      else if key = ''ids'' then
        Some (\<lambda>val. Inr [(''id'', JObj [(''$in'', JArr (compact_val val))])])
      else if key = ''_id'' then
        Some (\<lambda>val. case call_member ''Tenge.makeOID'' Tenge_makeOID val of
                       Inl e \<Rightarrow> Inl e
                     | Inr oid \<Rightarrow> Inr [(''_id'', oid)])
      else if key = ''_ids'' then
        Some (\<lambda>val. Inr [(''_id'',
                JObj [(''$in'', JArr (compact (map_val val Tenge_makeOID)))])])
      else None)"

text \<open>
  The callback of \<^verbatim>\<open>_.transform($$, ..., query)\<close> in \<^verbatim>\<open>_makeQuery\<close>, over the properties of
  \<^verbatim>\<open>$$\<close> in order, with \<open>query\<close> as the accumulator.
\<close>

fun transform :: "(string \<times> json) list \<Rightarrow> obj \<Rightarrow> error + obj" where
  "transform [] query = Inr query"
| "transform ((key, val) # rest) query =
     (case queryTransformers key of
        None \<Rightarrow>
          Inl (Error (''Tenge: No query transformer registered for '' @ [CHR 0x22]
                        @ ''$$.'' @ key @ [CHR 0x22]))
      | Some transformer \<Rightarrow>
          (case transformer val of
             Inl e \<Rightarrow> Inl e
           | Inr fragment \<Rightarrow> transform rest (merge_obj query fragment)))"

text \<open>
  \<^verbatim>\<open>_makeQuery(params)\<close>: \<^verbatim>\<open>_.get(params, 'query.$$', {})\<close>, \<^verbatim>\<open>_.omit(query, '$$')\<close>, the
  transformers, and the result \<^verbatim>\<open>{query: query}\<close>. \<open>Inl\<close> is the exception thrown.
\<close>

definition makeQuery :: "obj \<Rightarrow> error + obj" where
  "makeQuery params =
     (let dd = (case get (getprop params ''query'') ''$$'' of Undefined \<Rightarrow> JObj [] | v \<Rightarrow> v);
          query = omit (getprop params ''query'') ''$$''
      in case transform (entries dd) query of
           Inl e \<Rightarrow> Inl e
         | Inr q \<Rightarrow> Inr [(''query'', JObj q)])"

section \<open>Hook chains\<close>

text \<open>
  A hook is \<^verbatim>\<open>function(params, next)\<close> with \<^verbatim>\<open>params = {docs: docs}\<close>. A handler is
  modelled by what it does before it calls \<^verbatim>\<open>next\<close> once: from the value of
  \<^verbatim>\<open>params.docs\<close> it receives and the state \<open>'w\<close> of everything outside the layer, it
  gives the value it passes to \<^verbatim>\<open>next\<close> (\<open>Undefined\<close> for \<^verbatim>\<open>next()\<close>), the value of
  \<^verbatim>\<open>params.docs\<close> it leaves behind, and the new outside state. Handlers change the
  documents of \<^verbatim>\<open>params.docs\<close> in place: the document at a position of the list a handler
  leaves is the state in which it leaves the object that it found at that position.
\<close>

type_synonym 'w hook = "json list \<Rightarrow> 'w \<Rightarrow> (json \<times> json list) \<times> 'w"

text \<open>
  \<^verbatim>\<open>_runHooks(hooks, docs, cb)\<close>: the chain \<^verbatim>\<open>F.when(null).then(h1).then(h2)...\<close> runs the
  handlers one after the other on the one \<^verbatim>\<open>params\<close> object; a truthy value passed to
  \<^verbatim>\<open>next\<close> skips the remaining steps, and \<^verbatim>\<open>anyway\<close> calls \<^verbatim>\<open>cb(err, params.docs)\<close>.
\<close>

fun runHooks :: "'w hook list \<Rightarrow> json list \<Rightarrow> 'w \<Rightarrow> (error option \<times> json list) \<times> 'w" where
  "runHooks [] docs w = ((None, docs), w)"
| "runHooks (hook # hooks) docs w =
     (case hook docs w of
        ((err, docs'), w') \<Rightarrow>
          if truthy err then ((Some (Passed err), docs'), w')
          else runHooks hooks docs' w')"

text \<open>
  What it is for handlers to pass one after the other, said by the handlers' own results:
  \<open>passes hs docs w ps out wo\<close> when the handlers \<open>hs\<close>, taken in order, each pass a falsy
  value to \<^verbatim>\<open>next\<close>, the first being given the payload \<open>docs\<close> and the outside state
  \<open>w\<close>, every other one the payload and the outside state its predecessor left; \<open>ps\<close> are
  the payloads the handlers are given, in order, \<open>out\<close> and \<open>wo\<close> the payload and the
  outside state the last one leaves.
\<close>

inductive passes :: "'w hook list \<Rightarrow> json list \<Rightarrow> 'w \<Rightarrow> json list list \<Rightarrow> json list \<Rightarrow> 'w \<Rightarrow> bool" where
  none: "passes [] docs w [] docs w"
| step: "h docs w = ((err, docs1), w1) \<Longrightarrow> \<not> truthy err \<Longrightarrow> passes hs docs1 w1 ps out wo
         \<Longrightarrow> passes (h # hs) docs w (docs # ps) out wo"

code_pred passes .

text \<open>
  \<^verbatim>\<open>this._hooks\<close>, as the constructor lays it out:
  \<^verbatim>\<open>{before: {insert, remove}, after: {insert, update, upsert, remove}}\<close>.
\<close>

record 'w before_hooks =
  b_insert :: "'w hook list"
  b_remove :: "'w hook list"

record 'w after_hooks =
  a_insert :: "'w hook list"
  a_update :: "'w hook list"
  a_upsert :: "'w hook list"
  a_remove :: "'w hook list"

record 'w registry =
  h_before :: "'w before_hooks"
  h_after :: "'w after_hooks"

definition no_hooks :: "'w registry" where
  "no_hooks = \<lparr>h_before = \<lparr>b_insert = [], b_remove = []\<rparr>,
               h_after = \<lparr>a_insert = [], a_update = [], a_upsert = [], a_remove = []\<rparr>\<rparr>"

text \<open>
  \<^verbatim>\<open>before(action, handler)\<close> and \<^verbatim>\<open>after(action, handler)\<close>: the handler is pushed at the
  end of the action's list; an action the phase has no list for fails the assertion. The lists
  are the properties of an object literal, so an action that names a member that every object
  inherits from \<^verbatim>\<open>Object.prototype\<close> reads that member: it is truthy, the assertion
  passes, and \<^verbatim>\<open>hooks.push(handler)\<close> throws a \<^verbatim>\<open>TypeError\<close>.
\<close>

definition before :: "string \<Rightarrow> 'w hook \<Rightarrow> 'w registry \<Rightarrow> error + 'w registry" where
  "before action handler r =
     (if action = ''insert'' then
        Inr (r\<lparr>h_before := (h_before r)\<lparr>b_insert := b_insert (h_before r) @ [handler]\<rparr>\<rparr>)
      else if action = ''remove'' then
        Inr (r\<lparr>h_before := (h_before r)\<lparr>b_remove := b_remove (h_before r) @ [handler]\<rparr>\<rparr>)
      else if action \<in> set Object_prototype then
        Inl (TypeError ''hooks.push is not a function'')
      else Inl (Error (''Tenge: Before-hook for action not supported: '' @ action)))"

definition after :: "string \<Rightarrow> 'w hook \<Rightarrow> 'w registry \<Rightarrow> error + 'w registry" where
  "after action handler r =
     (if action = ''insert'' then
        Inr (r\<lparr>h_after := (h_after r)\<lparr>a_insert := a_insert (h_after r) @ [handler]\<rparr>\<rparr>)
      else if action = ''update'' then
        Inr (r\<lparr>h_after := (h_after r)\<lparr>a_update := a_update (h_after r) @ [handler]\<rparr>\<rparr>)
      else if action = ''upsert'' then
        Inr (r\<lparr>h_after := (h_after r)\<lparr>a_upsert := a_upsert (h_after r) @ [handler]\<rparr>\<rparr>)
      else if action = ''remove'' then
        Inr (r\<lparr>h_after := (h_after r)\<lparr>a_remove := a_remove (h_after r) @ [handler]\<rparr>\<rparr>)
      else if action \<in> set Object_prototype then
        Inl (TypeError ''hooks.push is not a function'')
      else Inl (Error (''Tenge: After-hook for action not supported: '' @ action)))"

section \<open>The store driver and the state of a run\<close>

text \<open>
  A mongojs cursor as \<^verbatim>\<open>_findCursor\<close> sets it up: the arguments of \<^verbatim>\<open>col.find\<close>, and what
  \<^verbatim>\<open>sort\<close>, \<^verbatim>\<open>skip\<close> and \<^verbatim>\<open>limit\<close> were called with (\<open>Undefined\<close> when not called).
\<close>

record cursor =
  c_query :: json
  c_fields :: json
  c_sort :: json
  c_skip :: json
  c_limit :: json

text \<open>The requests the layer sends to the driver.\<close>

datatype request =
    EnsureIndex json json
  | Insert "json list"
  | ToArray cursor
  | Next cursor
  | Count cursor
  | Size cursor
  | Remove json
  | Update json json json
  | FindAndModify obj

text \<open>
  The collaborators outside \<^verbatim>\<open>index.js\<close>: the mongojs collection and \<^verbatim>\<open>shortid\<close>. Each
  acts on the outside state \<open>'w\<close>; an answer \<open>Inl err\<close> is a callback called with a truthy
  \<^verbatim>\<open>err\<close>, \<open>Inr x\<close> one called with the data \<open>x\<close>. \<^verbatim>\<open>findAndModify\<close> calls back with the
  document and the \<^verbatim>\<open>lastErrorObject\<close>; \<^verbatim>\<open>update\<close> and \<^verbatim>\<open>remove\<close> with a report object.
\<close>

record 'w driver =
  col_ensureIndex :: "json \<Rightarrow> json \<Rightarrow> 'w \<Rightarrow> (json + unit) \<times> 'w"
  col_insert :: "json list \<Rightarrow> 'w \<Rightarrow> (json + json list) \<times> 'w"
  col_toArray :: "cursor \<Rightarrow> 'w \<Rightarrow> (json + json list) \<times> 'w"
  col_next :: "cursor \<Rightarrow> 'w \<Rightarrow> (json + json) \<times> 'w"
  col_count :: "cursor \<Rightarrow> 'w \<Rightarrow> (json + json) \<times> 'w"
  col_size :: "cursor \<Rightarrow> 'w \<Rightarrow> (json + json) \<times> 'w"
  col_remove :: "json \<Rightarrow> 'w \<Rightarrow> (json + obj) \<times> 'w"
  col_update :: "json \<Rightarrow> json \<Rightarrow> json \<Rightarrow> 'w \<Rightarrow> (json + obj) \<times> 'w"
  col_findAndModify :: "obj \<Rightarrow> 'w \<Rightarrow> (json + json \<times> obj) \<times> 'w"
  shortid_generate :: "'w \<Rightarrow> json \<times> 'w"

text \<open>
  The state a call runs in: the outside state, the requests sent so far (oldest first),
  whether \<^verbatim>\<open>Tenge.connect\<close> has been called, and the model object \<^verbatim>\<open>this\<close>
  (\<^verbatim>\<open>_params.collection\<close>, whether \<^verbatim>\<open>_col\<close> is set, \<^verbatim>\<open>_hooks\<close>).
\<close>

record 'w state =
  world :: 'w
  issued :: "request list"
  connected :: bool
  collection_name :: json
  col_set :: bool
  hooks :: "'w registry"

text \<open>Sending a request: it is recorded, and the driver's answer changes the outside state.\<close>

definition issue :: "request \<Rightarrow> ('w \<Rightarrow> 'r \<times> 'w) \<Rightarrow> 'w state \<Rightarrow> 'r \<times> 'w state" where
  "issue req f s =
     (case f (world s) of (r, w) \<Rightarrow> (r, s\<lparr>world := w, issued := issued s @ [req]\<rparr>))"

text \<open>Running a chain of the registry on the outside state.\<close>

definition run_chain :: "'w hook list \<Rightarrow> json list \<Rightarrow> 'w state
    \<Rightarrow> (error option \<times> json list) \<times> 'w state" where
  "run_chain hs docs s = (case runHooks hs docs (world s) of (r, w) \<Rightarrow> (r, s\<lparr>world := w\<rparr>))"

section \<open>The collection handle\<close>

text \<open>
  The hook that \<^verbatim>\<open>_initCollection\<close> registers: \<^verbatim>\<open>doc.id = doc.id || self.makeID()\<close> for every
  document, then \<^verbatim>\<open>next()\<close>. Documents are objects; any other element is left as it is.
\<close>

fun assign_ids :: "('w \<Rightarrow> json \<times> 'w) \<Rightarrow> json list \<Rightarrow> 'w \<Rightarrow> json list \<times> 'w" where
  "assign_ids makeID [] w = ([], w)"
| "assign_ids makeID (JObj kvs # docs) w =
     (if truthy (getprop kvs ''id'') then
        (case assign_ids makeID docs w of
           (ds, w') \<Rightarrow> (JObj (AList.update ''id'' (getprop kvs ''id'') kvs) # ds, w'))
      else
        (case makeID w of
           (i, w1) \<Rightarrow>
             (case assign_ids makeID docs w1 of
                (ds, w2) \<Rightarrow> (JObj (AList.update ''id'' i kvs) # ds, w2))))"
| "assign_ids makeID (doc # docs) w =
     (case assign_ids makeID docs w of (ds, w') \<Rightarrow> (doc # ds, w'))"

definition id_hook :: "'w driver \<Rightarrow> 'w hook" where
  "id_hook drv docs w = (case assign_ids (shortid_generate drv) docs w of
                           (ds, w') \<Rightarrow> ((Undefined, ds), w'))"

text \<open>
  \<^verbatim>\<open>_initCollection\<close>: \<^verbatim>\<open>self._db()\<close> throws inside the first step unless connected; then
  \<^verbatim>\<open>ensureIndex({id: 1}, {unique: true})\<close>; the second step registers the id hook.
\<close>

definition initCollection :: "'w driver \<Rightarrow> 'w state \<Rightarrow> unit outcome \<times> 'w state" where
  "initCollection drv s =
     (if \<not> connected s then
        (Failed (Error ''Tenge: Not connected to database, use Tenge.connect())''), s)
      else
        (case issue (EnsureIndex (JObj [(''id'', JNum 1)]) (JObj [(''unique'', JBool True)]))
                (col_ensureIndex drv (JObj [(''id'', JNum 1)]) (JObj [(''unique'', JBool True)])) s of
           (Inl e, s1) \<Rightarrow> (Failed (Passed e), s1)
         | (Inr u, s1) \<Rightarrow>
             (case before ''insert'' (id_hook drv) (hooks s1) of
                Inl e \<Rightarrow> (Failed e, s1)
              | Inr r \<Rightarrow> (Done (), s1\<lparr>hooks := r\<rparr>))))"

text \<open>
  \<^verbatim>\<open>_collection\<close>: the assertion on the collection name throws before the chain starts; the
  chain passes the memoised \<^verbatim>\<open>_col\<close> or initialises the collection and memoises it.
\<close>

definition collection :: "'w driver \<Rightarrow> 'w state \<Rightarrow> unit outcome \<times> 'w state" where
  "collection drv s =
     (case assert (collection_name s) ''No collection name provided'' of
        Some e \<Rightarrow> (Threw e, s)
      | None \<Rightarrow>
          if col_set s then (Done (), s)
          else (case initCollection drv s of
                  (Done u, s1) \<Rightarrow> (Done (), s1\<lparr>col_set := True\<rparr>)
                | (Failed e, s1) \<Rightarrow> (Failed e, s1)
                | (Threw e, s1) \<Rightarrow> (Failed e, s1)))"

section \<open>Operations\<close>

text \<open>
  The steps of a flowy chain run in order. Where one step opens several slots
  (\<^verbatim>\<open>_collection\<close> next to \<^verbatim>\<open>_runHooks\<close> or \<^verbatim>\<open>find\<close>), the model runs them one after the
  other in program order, and the error of the slot opened first is the one reported (when
  both fail, the callback gets the error that arrives first). What the second call reads when
  it starts is what the first call found: the hook list that \<^verbatim>\<open>_runHooks\<close> is called
  with does not yet hold the id hook of a first initialisation, and \<^verbatim>\<open>find\<close> reads
  \<^verbatim>\<open>_col\<close> before a first initialisation has set it.
\<close>

definition finish :: "(error option \<times> json list) \<times> 'w state \<Rightarrow> json list outcome \<times> 'w state" where
  "finish r = (case r of ((Some e, docs), s) \<Rightarrow> (Failed e, s)
                       | ((None, docs), s) \<Rightarrow> (Done docs, s))"

text \<open>
  \<^verbatim>\<open>_findCursor\<close>. Its second step builds the cursor from the completed parameters:
  \<^verbatim>\<open>col.find(params.query, params.fields)\<close>, \<^verbatim>\<open>sort\<close> and \<^verbatim>\<open>skip\<close> when the parameter is
  truthy, and \<^verbatim>\<open>limit(params.limit ? params.limit : null)\<close>.
\<close>

definition cursor_for :: "obj \<Rightarrow> cursor" where
  "cursor_for p =
     \<lparr>c_query = getprop p ''query'',
      c_fields = getprop p ''fields'',
      c_sort = (if truthy (getprop p ''sort'') then getprop p ''sort'' else Undefined),
      c_skip = (if truthy (getprop p ''skip'') then getprop p ''skip'' else Undefined),
      c_limit = (if truthy (getprop p ''limit'') then getprop p ''limit'' else Null)\<rparr>"

definition findCursor :: "'w driver \<Rightarrow> obj \<Rightarrow> 'w state \<Rightarrow> cursor outcome \<times> 'w state" where
  "findCursor drv params s =
     (case makeQuery params of
        Inl e \<Rightarrow> (Threw e, s)
      | Inr q \<Rightarrow>
          (let p = defaults (defaults q params) [(''fields'', JObj [])] in
           case collection drv s of
             (Done u, s1) \<Rightarrow> (Done (cursor_for p), s1)
           | (Failed e, s1) \<Rightarrow> (Failed e, s1)
           | (Threw e, s1) \<Rightarrow> (Failed e, s1)))"

text \<open>
  The shape shared by \<^verbatim>\<open>find\<close>, \<^verbatim>\<open>findOne\<close>, \<^verbatim>\<open>count\<close> and \<^verbatim>\<open>size\<close>: a first step calls
  \<^verbatim>\<open>_findCursor\<close>, a second one calls a terminal method of the cursor.
\<close>

definition on_cursor :: "'w driver \<Rightarrow> obj \<Rightarrow> (cursor \<Rightarrow> request)
    \<Rightarrow> (cursor \<Rightarrow> 'w \<Rightarrow> (json + 'r) \<times> 'w) \<Rightarrow> 'w state \<Rightarrow> 'r outcome \<times> 'w state" where
  "on_cursor drv params req terminal s =
     (case findCursor drv params s of
        (Done c, s1) \<Rightarrow>
          (case issue (req c) (terminal c) s1 of
             (Inl e, s2) \<Rightarrow> (Failed (Passed e), s2)
           | (Inr x, s2) \<Rightarrow> (Done x, s2))
      | (Failed e, s1) \<Rightarrow> (Failed e, s1)
      | (Threw e, s1) \<Rightarrow> (Failed e, s1))"

definition find_op :: "'w driver \<Rightarrow> obj \<Rightarrow> 'w state \<Rightarrow> json list outcome \<times> 'w state" where
  "find_op drv params s = on_cursor drv params ToArray (col_toArray drv) s"

definition findOne :: "'w driver \<Rightarrow> obj \<Rightarrow> 'w state \<Rightarrow> json outcome \<times> 'w state" where
  "findOne drv params s = on_cursor drv params Next (col_next drv) s"



text \<open>The filter \<^verbatim>\<open>{_id: {$in: ids}}\<close>.\<close>

definition key_in :: "json list \<Rightarrow> json" where
  "key_in ids = JObj [(''_id'', JObj [(''$in'', JArr ids)])]"

text \<open>\<^verbatim>\<open>insert\<close>.\<close>

definition insert_op :: "'w driver \<Rightarrow> obj \<Rightarrow> 'w state \<Rightarrow> json list outcome \<times> 'w state" where
  "insert_op drv params s =
     (case collection drv s of
        (Threw e, s1) \<Rightarrow> (Failed e, s1)
      | (rc, s1) \<Rightarrow>
          (let docs = compact (concat_arg (getprop params ''doc'')
                               @ concat_arg (getprop params ''docs'')) in
           case assert (JArr docs) ''no doc or docs specified for insert operation'' of
             Some e \<Rightarrow> (Failed e, s1)
           | None \<Rightarrow>
               (case run_chain (b_insert (h_before (hooks s))) docs s1 of
                  ((herr, docs1), s2) \<Rightarrow>
                    (case rc of
                       Failed e \<Rightarrow> (Failed e, s2)
                     | _ \<Rightarrow>
                      (case herr of
                         Some e \<Rightarrow> (Failed e, s2)
                       | None \<Rightarrow>
                           (case issue (Insert docs1) (col_insert drv docs1) s2 of
                              (Inl e, s3) \<Rightarrow> (Failed (Passed e), s3)
                            | (Inr docs2, s3) \<Rightarrow>
                                finish (run_chain (a_insert (h_after (hooks s3))) docs2 s3)))))))"

text \<open>\<^verbatim>\<open>remove\<close>. \<^verbatim>\<open>_makeQuery\<close> is called before the chain starts, so its exception leaves
  the call.\<close>

definition remove_op :: "'w driver \<Rightarrow> obj \<Rightarrow> 'w state \<Rightarrow> json list outcome \<times> 'w state" where
  "remove_op drv params s =
     (case makeQuery params of
        Inl e \<Rightarrow> (Threw e, s)
      | Inr q \<Rightarrow>
          (let p = defaults q params in
           case find_op drv p s of
             (Done docs, s1) \<Rightarrow>
               (case collection drv s1 of
                  (Threw e, s2) \<Rightarrow> (Failed e, s2)
                | (rc, s2) \<Rightarrow>
                    (case run_chain (b_remove (h_before (hooks s1))) docs s2 of
                       ((herr, docs1), s3) \<Rightarrow>
                         (case rc of
                            Failed e \<Rightarrow> (Failed e, s3)
                          | _ \<Rightarrow>
                           (case herr of
                              Some e \<Rightarrow> (Failed e, s3)
                            | None \<Rightarrow>
                                if docs1 \<noteq> [] then
                                  (let flt = key_in (pluck docs1 ''_id'') in
                                   case issue (Remove flt) (col_remove drv flt) s3 of
                                     (Inl e, s4) \<Rightarrow> (Failed (Passed e), s4)
                                   | (Inr result, s4) \<Rightarrow>
                                       finish (run_chain (a_remove (h_after (hooks s4))) docs1 s4))
                                else
                                  finish (run_chain (a_remove (h_after (hooks s3))) docs1 s3)))))
           | (Failed e, s1) \<Rightarrow> (Failed e, s1)
           | (Threw e, s1) \<Rightarrow> (Failed e, s1)))"

text \<open>
  \<^verbatim>\<open>updateOne\<close>. Its last step passes \<^verbatim>\<open>doc\<close>, the object that \<^verbatim>\<open>findAndModify\<close>
  returned, and runs the hooks on \<^verbatim>\<open>[doc]\<close>: the callback gets that one object and the
  payload the hooks left. The object is the first element of the hooks' payload, so the
  callback sees it as the hooks left it (\<^verbatim>\<open>any changes to this object in after-hooks will
  be properly reflected in the final callback result\<close>): \<open>callback_doc doc docs\<close> is the first
  document of the payload \<open>docs\<close> the hooks left, and \<open>doc\<close> itself when they left an
  empty payload.
\<close>

definition callback_doc :: "json \<Rightarrow> json list \<Rightarrow> json" where
  "callback_doc doc docs = (case docs of [] \<Rightarrow> doc | d # ds \<Rightarrow> d)"

definition finish_with :: "json \<Rightarrow> (error option \<times> json list) \<times> 'w state
    \<Rightarrow> (json \<times> json list) outcome \<times> 'w state" where
  "finish_with doc r = (case r of ((Some e, docs), s) \<Rightarrow> (Failed e, s)
                                | ((None, docs), s) \<Rightarrow> (Done (callback_doc doc docs, docs), s))"


text \<open>
  \<^verbatim>\<open>updateAll\<close>. Its first step starts \<^verbatim>\<open>_collection\<close> and \<^verbatim>\<open>find\<close> together, and
  \<^verbatim>\<open>find\<close> calls \<^verbatim>\<open>_collection\<close> itself. \<^verbatim>\<open>_col\<close> is set only when \<^verbatim>\<open>ensureIndex\<close> has
  answered, so the second call reads \<^verbatim>\<open>_col\<close> as the first one found it: on a model that
  is not yet initialised both calls initialise the collection, \<^verbatim>\<open>ensureIndex\<close> is sent
  twice and the id hook is registered twice. \<open>beside s f s1\<close> runs \<open>f\<close> after a call of
  \<^verbatim>\<open>_collection\<close> that led from \<open>s\<close> to \<open>s1\<close>, with \<^verbatim>\<open>_col\<close> read as it was in \<open>s\<close>;
  afterwards \<^verbatim>\<open>_col\<close> is set when either has set it.
\<close>

definition beside :: "'w state \<Rightarrow> ('w state \<Rightarrow> 'r \<times> 'w state) \<Rightarrow> 'w state \<Rightarrow> 'r \<times> 'w state" where
  "beside s f s1 =
     (case f (s1\<lparr>col_set := col_set s\<rparr>) of
        (r, s2) \<Rightarrow> (r, s2\<lparr>col_set := col_set s1 \<or> col_set s2\<rparr>))"

definition updateAll :: "'w driver \<Rightarrow> obj \<Rightarrow> 'w state \<Rightarrow> json list outcome \<times> 'w state" where
  "updateAll drv params s =
     (case makeQuery params of
        Inl e \<Rightarrow> (Threw e, s)
      | Inr q \<Rightarrow>
          (let p = defaults (defaults q params) [(''sort'', JObj [(''_id'', JNum 1)])] in
           case collection drv s of
             (Threw e, s1) \<Rightarrow> (Failed e, s1)
           | (rc, s1) \<Rightarrow>
               (case beside s (find_op drv (extend_obj (extend_obj [] p)
                                              [(''fields'', JObj [(''_id'', JBool True)])])) s1 of
                  (rf, s2) \<Rightarrow>
                    (case rc of
                       Failed e \<Rightarrow> (Failed e, s2)
                     | _ \<Rightarrow>
                      (case rf of
                         Failed e \<Rightarrow> (Failed e, s2)
                       | Threw e \<Rightarrow> (Failed e, s2)
                       | Done docsToUpdate \<Rightarrow>
                           (let ids = pluck docsToUpdate ''_id'' in
                            case (if ids = [] \<and> truthy (getprop p ''upsert'') then
                                    issue (Update (getprop p ''query'') (getprop p ''update'')
                                             (JObj [(''upsert'', JBool True), (''multi'', JBool True)]))
                                      (col_update drv (getprop p ''query'') (getprop p ''update'')
                                             (JObj [(''upsert'', JBool True), (''multi'', JBool True)])) s2
                                  else
                                    issue (Update (key_in ids) (getprop p ''update'')
                                             (JObj [(''multi'', JBool True)]))
                                      (col_update drv (key_in ids) (getprop p ''update'')
                                             (JObj [(''multi'', JBool True)])) s2) of
                              (Inl e, s3) \<Rightarrow> (Failed (Passed e), s3)
                            | (Inr result, s3) \<Rightarrow>
                                (let updated = length ids;
                                     ids' = (if ids \<noteq> [] then ids
                                             else pluck_val (getprop result ''upserted'') ''_id'') in
                                 case (if ids' \<noteq> [] then
                                         find_op drv (extend_obj (extend_obj [] p)
                                                        [(''query'', key_in ids')]) s3
                                       else (Done [], s3)) of
                                   (Done docs, s4) \<Rightarrow>
                                     if docs = [] then (Done [], s4)
                                     else if updated \<noteq> 0 then
                                       finish (run_chain (a_update (h_after (hooks s4))) docs s4)
                                     else
                                       finish (run_chain (a_upsert (h_after (hooks s4))) docs s4)
                                 | (Failed e, s4) \<Rightarrow> (Failed e, s4)
                                 | (Threw e, s4) \<Rightarrow> (Failed e, s4))))))))"

section \<open>A store in memory\<close>

text \<open>
  Modelled from the spec: the terminal methods \<^verbatim>\<open>count\<close> and \<^verbatim>\<open>size\<close> of the driver's
  cursor; the driver (mongojs) is not part of the repository. The spec, sections 4.3 and 6:
  a falsy or absent limit means unbounded; \<^verbatim>\<open>count\<close> reports the total number of documents
  matching the filter with skip and limit not applied; \<^verbatim>\<open>size\<close> reports the number of
  documents the cursor would yield after skip and limit are applied. \<open>m filter doc\<close> says
  whether a document matches a filter.
\<close>

definition skip_of :: "cursor \<Rightarrow> nat" where
  "skip_of c = (case c_skip c of JNum n \<Rightarrow> nat n | _ \<Rightarrow> 0)"

definition limited :: "cursor \<Rightarrow> 'a list \<Rightarrow> 'a list" where
  "limited c xs = (case c_limit c of JNum n \<Rightarrow> if 0 < n then take (nat n) xs else xs | _ \<Rightarrow> xs)"

definition cursor_yield :: "(json \<Rightarrow> json \<Rightarrow> bool) \<Rightarrow> json list \<Rightarrow> cursor \<Rightarrow> json list" where
  "cursor_yield m coll c = limited c (drop (skip_of c) (filter (m (c_query c)) coll))"

definition cursor_count :: "(json \<Rightarrow> json \<Rightarrow> bool) \<Rightarrow> json list \<Rightarrow> cursor \<Rightarrow> nat" where
  "cursor_count m coll c = length (filter (m (c_query c)) coll)"

definition cursor_size :: "(json \<Rightarrow> json \<Rightarrow> bool) \<Rightarrow> json list \<Rightarrow> cursor \<Rightarrow> nat" where
  "cursor_size m coll c = length (cursor_yield m coll c)"

text \<open>
  Modelled from the spec: the rest of the store driver of section 6, as far as the examples
  below need it. The collection is a list of documents, with a counter for the keys the store
  hands out. A filter is a conjunction of conditions on fields, equality with a value or
  membership for \<^verbatim>\<open>{$in: [...]}\<close>; an update document \<^verbatim>\<open>{$set: {...}}\<close> assigns fields; an
  upsert creates a document from the equalities of the filter and the update. Sorting and
  projection are not modelled.
\<close>

record mem =
  stored :: "json list"
  fresh :: nat

definition holds :: "json \<Rightarrow> json \<Rightarrow> bool" where
  "holds c v = (case c of
                  JObj [(opr, JArr xs)] \<Rightarrow> if opr = ''$in'' then v \<in> set xs else v = c
                | _ \<Rightarrow> v = c)"

definition matches :: "json \<Rightarrow> json \<Rightarrow> bool" where
  "matches q d = list_all (\<lambda>(k, c). holds c (get d k)) (entries q)"

definition apply_set :: "json \<Rightarrow> json \<Rightarrow> json" where
  "apply_set u d = JObj (extend_obj (entries d) (entries (get u ''$set'')))"

definition equalities :: "json \<Rightarrow> obj" where
  "equalities q = filter (\<lambda>(k, c). case c of JObj x \<Rightarrow> False | _ \<Rightarrow> True) (entries q)"

definition created :: "json \<Rightarrow> json \<Rightarrow> mem \<Rightarrow> json" where
  "created q u w = apply_set u (JObj ((''_id'', JOid (decimal (fresh w))) # equalities q))"

fun modify_first :: "(json \<Rightarrow> bool) \<Rightarrow> (json \<Rightarrow> json) \<Rightarrow> json list \<Rightarrow> json list" where
  "modify_first P f [] = []"
| "modify_first P f (d # ds) = (if P d then f d # ds else d # modify_first P f ds)"

fun with_keys :: "nat \<Rightarrow> json list \<Rightarrow> json list" where
  "with_keys n [] = []"
| "with_keys n (d # ds) =
     (if get d ''_id'' = Undefined
      then JObj (AList.update ''_id'' (JOid (decimal n)) (entries d)) # with_keys (Suc n) ds
      else d # with_keys (Suc n) ds)"

definition mem_update :: "json \<Rightarrow> json \<Rightarrow> json \<Rightarrow> mem \<Rightarrow> (json + obj) \<times> mem" where
  "mem_update q u opts w =
     (if filter (matches q) (stored w) = [] \<and> truthy (get opts ''upsert'') then
        (Inr [(''n'', JNum 1),
              (''upserted'', JArr [JObj [(''index'', JNum 0),
                                         (''_id'', JOid (decimal (fresh w)))]])],
         w\<lparr>stored := stored w @ [created q u w], fresh := Suc (fresh w)\<rparr>)
      else
        (Inr [(''n'', JNum (int (length (filter (matches q) (stored w)))))],
         w\<lparr>stored := map (\<lambda>d. if matches q d then apply_set u d else d) (stored w)\<rparr>))"

definition mem_findAndModify :: "obj \<Rightarrow> mem \<Rightarrow> (json + json \<times> obj) \<times> mem" where
  "mem_findAndModify p w =
     (case filter (matches (getprop p ''query'')) (stored w) of
        d # ds \<Rightarrow>
          (Inr (apply_set (getprop p ''update'') d,
                [(''updatedExisting'', JBool True), (''n'', JNum 1)]),
           w\<lparr>stored := modify_first (matches (getprop p ''query''))
                          (apply_set (getprop p ''update'')) (stored w)\<rparr>)
      | [] \<Rightarrow>
          if truthy (getprop p ''upsert'') then
            (Inr (created (getprop p ''query'') (getprop p ''update'') w,
                  [(''updatedExisting'', JBool False), (''n'', JNum 1),
                   (''upserted'', JOid (decimal (fresh w)))]),
             w\<lparr>stored := stored w @ [created (getprop p ''query'') (getprop p ''update'') w],
               fresh := Suc (fresh w)\<rparr>)
          else
            (Inr (Null, [(''updatedExisting'', JBool False), (''n'', JNum 0)]), w))"

definition mem_driver :: "mem driver" where
  "mem_driver =
     \<lparr>col_ensureIndex = (\<lambda>keys opts w. (Inr (), w)),
      col_insert = (\<lambda>docs w. (Inr (with_keys (fresh w) docs),
                      w\<lparr>stored := stored w @ with_keys (fresh w) docs,
                        fresh := fresh w + length docs\<rparr>)),
      col_toArray = (\<lambda>c w. (Inr (cursor_yield matches (stored w) c), w)),
      col_next = (\<lambda>c w. (Inr (case cursor_yield matches (stored w) c of
                                  [] \<Rightarrow> Null | d # ds \<Rightarrow> d), w)),
      col_count = (\<lambda>c w. (Inr (JNum (int (cursor_count matches (stored w) c))), w)),
      col_size = (\<lambda>c w. (Inr (JNum (int (cursor_size matches (stored w) c))), w)),
      col_remove = (\<lambda>q w. (Inr [(''n'', JNum (int (length (filter (matches q) (stored w)))))],
                      w\<lparr>stored := filter (\<lambda>d. \<not> matches q d) (stored w)\<rparr>)),
      col_update = mem_update,
      col_findAndModify = mem_findAndModify,
      shortid_generate = (\<lambda>w. (JStr (''id'' @ decimal (fresh w)), w\<lparr>fresh := Suc (fresh w)\<rparr>))\<rparr>"

text \<open>A model object that is connected and initialised, with the given hooks.\<close>

definition ready :: "'w registry \<Rightarrow> 'w \<Rightarrow> 'w state" where
  "ready r w = \<lparr>world = w, issued = [], connected = True,
                collection_name = JStr ''unittests'', col_set = True, hooks = r\<rparr>"

text \<open>People of the unit tests, with the keys the store gave them.\<close>

definition person :: "nat \<Rightarrow> string \<Rightarrow> int \<Rightarrow> json" where
  "person k name age =
     JObj [(''_id'', JOid (decimal k)), (''name'', JStr name), (''age'', JNum age)]"

definition friends :: mem where
  "friends = \<lparr>stored = [person 0 ''Bob'' 17, person 1 ''Alice'' 17, person 2 ''Chris'' 17,
                         person 3 ''Paul'' 16, person 4 ''Waldo'' 20],
              fresh = 5\<rparr>"

text \<open>A hook that marks every document, as the hooks of the unit tests do.\<close>

definition mark_hook :: "string \<Rightarrow> 'w hook" where
  "mark_hook field docs w =
     ((Undefined, map (\<lambda>d. JObj (AList.update field (JBool True) (entries d))) docs), w)"

text \<open>Hooks that tell an update from an upsert, and parameters of the unit tests.\<close>

definition marking :: "'w registry" where
  "marking = \<lparr>h_before = \<lparr>b_insert = [], b_remove = []\<rparr>,
              h_after = \<lparr>a_insert = [], a_update = [mark_hook ''updated''],
                         a_upsert = [mark_hook ''upserted''], a_remove = []\<rparr>\<rparr>"

definition levitate :: obj where
  "levitate = [(''query'', JObj [(''age'', JNum 150)]),
               (''update'', JObj [(''$set'', JObj [(''hobby'', JStr ''levitate'')])])]"

definition reading :: obj where
  "reading = [(''query'', JObj [(''age'', JNum 17)]),
              (''update'', JObj [(''$set'', JObj [(''hobby'', JStr ''reading'')])])]"

text \<open>
  The hooks of the unit test \<^verbatim>\<open>should handle before- and after-remove hook\<close>: the
  before-remove hook marks the documents and keeps the first two of them.
\<close>

definition slice_hook :: "nat \<Rightarrow> 'w hook" where
  "slice_hook n docs w = ((Undefined, take n docs), w)"

definition removing :: "'w registry" where
  "removing = \<lparr>h_before = \<lparr>b_insert = [],
                             b_remove = [mark_hook ''modifiedBefore'', slice_hook 2]\<rparr>,
               h_after = \<lparr>a_insert = [], a_update = [], a_upsert = [],
                          a_remove = [mark_hook ''modifiedAfter'']\<rparr>\<rparr>"

text \<open>
  The fan-out run as the spec words it (section 4.2, \<^verbatim>\<open>runFanOut\<close>; \<^verbatim>\<open>_runHooksEach\<close> of
  the older variants of the file): each element of the sequence gets its own run of the
  chain, with that element as the target; a failure in one element's run does not stop the run
  of another element, and the first error is the one reported. The runs are taken in the order
  of the sequence.
\<close>

fun fanOut_spec :: "'w hook list \<Rightarrow> json list \<Rightarrow> 'w \<Rightarrow> (error option \<times> json list) \<times> 'w" where
  "fanOut_spec hs [] w = ((None, []), w)"
| "fanOut_spec hs (d # ds) w =
     (case runHooks hs [d] w of
        ((e, out), w1) \<Rightarrow>
          (case fanOut_spec hs ds w1 of
             ((e', outs), w2) \<Rightarrow>
               ((case e of Some x \<Rightarrow> Some x | None \<Rightarrow> e', out @ outs), w2)))"

text \<open>
  Observation of handlers. \<open>record_hook\<close> leaves the payload alone and notes, in the outside
  state, the payload it was invoked with. \<open>traced i h\<close> behaves as \<open>h\<close> on the first part of
  the outside state and notes in the second part, the trace, that handler number \<open>i\<close> was
  invoked and with which payload; \<open>traced_from i hs\<close> numbers the handlers of a chain from
  \<open>i\<close> on, in the order of the chain. \<open>traced_driver drv\<close> is the driver \<open>drv\<close> on the
  first part of the outside state; it leaves the trace alone.
\<close>

definition record_hook :: "(json list list) hook" where
  "record_hook docs w = ((Undefined, docs), w @ [docs])"

type_synonym trace = "(nat \<times> json list) list"

definition traced :: "nat \<Rightarrow> 'w hook \<Rightarrow> ('w \<times> trace) hook" where
  "traced i h docs wl =
     (case h docs (fst wl) of (r, w') \<Rightarrow> (r, (w', snd wl @ [(i, docs)])))"

fun traced_from :: "nat \<Rightarrow> 'w hook list \<Rightarrow> ('w \<times> trace) hook list" where
  "traced_from i [] = []"
| "traced_from i (h # hs) = traced i h # traced_from (Suc i) hs"

definition on_fst :: "('w \<Rightarrow> 'r \<times> 'w) \<Rightarrow> 'w \<times> trace \<Rightarrow> 'r \<times> ('w \<times> trace)" where
  "on_fst f wl = (case f (fst wl) of (r, w') \<Rightarrow> (r, (w', snd wl)))"

definition traced_driver :: "'w driver \<Rightarrow> ('w \<times> trace) driver" where
  "traced_driver drv =
     \<lparr>col_ensureIndex = (\<lambda>keys opts. on_fst (col_ensureIndex drv keys opts)),
      col_insert = (\<lambda>docs. on_fst (col_insert drv docs)),
      col_toArray = (\<lambda>c. on_fst (col_toArray drv c)),
      col_next = (\<lambda>c. on_fst (col_next drv c)),
      col_count = (\<lambda>c. on_fst (col_count drv c)),
      col_size = (\<lambda>c. on_fst (col_size drv c)),
      col_remove = (\<lambda>q. on_fst (col_remove drv q)),
      col_update = (\<lambda>q u opts. on_fst (col_update drv q u opts)),
      col_findAndModify = (\<lambda>p. on_fst (col_findAndModify drv p)),
      shortid_generate = on_fst (shortid_generate drv)\<rparr>"

text \<open>A handler that fails with the given error and leaves the payload alone.\<close>

definition fail_hook :: "json \<Rightarrow> 'w hook" where
  "fail_hook err docs w = ((err, docs), w)"

text \<open>
  Two documents to insert, and a registry whose before-insert and after-insert handlers are
  traced, numbered through both chains.
\<close>

definition newcomers :: "json list" where
  "newcomers = [JObj [(''name'', JStr ''Bob'')], JObj [(''name'', JStr ''Alice'')]]"

definition inspecting :: "'w hook list \<Rightarrow> 'w hook list \<Rightarrow> ('w \<times> trace) registry" where
  "inspecting bs as =
     \<lparr>h_before = \<lparr>b_insert = traced_from 0 bs, b_remove = []\<rparr>,
      h_after = \<lparr>a_insert = traced_from (length bs) as, a_update = [], a_upsert = [],
                 a_remove = []\<rparr>\<rparr>"

text \<open>The handlers of the unit test \<^verbatim>\<open>should have hooks mechanism run properly\<close>.\<close>

definition push_hook :: "int \<Rightarrow> json \<Rightarrow> nat hook" where
  "push_hook n err docs w = ((err, docs @ [JNum n]), Suc w)"

section \<open>Query normalisation on a heap\<close>

text \<open>
  \<^verbatim>\<open>_makeQuery\<close> once more, on objects that have an identity: \<^verbatim>\<open>_.omit\<close> copies the
  properties of the caller's query into a new object, so the values of the copy are the
  caller's own nested objects, and \<^verbatim>\<open>_.merge\<close> writes into its destination. A value is a
  primitive or the address of an object; the heap is the list of the objects allocated so far,
  an address being a position in it.
\<close>

datatype hval = HUndefined | HNull | HBool bool | HNum int | HStr string | Ref nat

datatype hobj = Plain "(string \<times> hval) list" | Array "hval list" | ObjectId string

type_synonym heap = "hobj list"

text \<open>Reading an address, and allocating a new object at the end of the heap.\<close>

definition at :: "heap \<Rightarrow> nat \<Rightarrow> hobj option" where
  "at h a = (if a < length h then Some (h ! a) else None)"

definition alloc :: "hobj \<Rightarrow> heap \<Rightarrow> nat \<times> heap" where
  "alloc ob h = (length h, h @ [ob])"

text \<open>A property key: a name, or an index of an array.\<close>

datatype key = Name string | Index nat

fun h_truthy :: "hval \<Rightarrow> bool" where
  "h_truthy HUndefined = False"
| "h_truthy HNull = False"
| "h_truthy (HBool b) = b"
| "h_truthy (HNum n) = (n \<noteq> 0)"
| "h_truthy (HStr s) = (s \<noteq> [])"
| "h_truthy (Ref a) = True"

definition chars :: "string \<Rightarrow> hval list" where
  "chars s = map (\<lambda>c. HStr [c]) s"

text \<open>
  The own keys of a value, reading and writing a property, and \<^verbatim>\<open>key in object\<close>. A write to
  an array beyond its end extends it.
\<close>

definition h_keys :: "heap \<Rightarrow> hval \<Rightarrow> key list" where
  "h_keys h v =
     (case v of
        Ref a \<Rightarrow> (case at h a of
                    Some (Plain kvs) \<Rightarrow> map (\<lambda>kv. Name (fst kv)) kvs
                  | Some (Array vs) \<Rightarrow> map Index [0..<length vs]
                  | _ \<Rightarrow> [])
      | HStr s \<Rightarrow> map Index [0..<length s]
      | _ \<Rightarrow> [])"

definition h_read :: "heap \<Rightarrow> hval \<Rightarrow> key \<Rightarrow> hval" where
  "h_read h v k =
     (case v of
        Ref a \<Rightarrow> (case at h a of
                    Some (Plain kvs) \<Rightarrow>
                      (case map_of kvs (case k of Name n \<Rightarrow> n | Index i \<Rightarrow> decimal i) of
                         None \<Rightarrow> HUndefined | Some x \<Rightarrow> x)
                  | Some (Array vs) \<Rightarrow>
                      (case k of Index i \<Rightarrow> if i < length vs then vs ! i else HUndefined
                               | Name n \<Rightarrow> HUndefined)
                  | _ \<Rightarrow> HUndefined)
      | HStr s \<Rightarrow> (case k of Index i \<Rightarrow> if i < length s then HStr [s ! i] else HUndefined
                            | Name n \<Rightarrow> HUndefined)
      | _ \<Rightarrow> HUndefined)"

definition h_has :: "heap \<Rightarrow> nat \<Rightarrow> key \<Rightarrow> bool" where
  "h_has h a k =
     (case at h a of
        Some (Plain kvs) \<Rightarrow> (case k of Name n \<Rightarrow> n | Index i \<Rightarrow> decimal i) \<in> fst ` set kvs
      | Some (Array vs) \<Rightarrow> (case k of Index i \<Rightarrow> i < length vs | Name n \<Rightarrow> False)
      | _ \<Rightarrow> False)"

definition h_write :: "heap \<Rightarrow> nat \<Rightarrow> key \<Rightarrow> hval \<Rightarrow> heap" where
  "h_write h a k x =
     (case at h a of
        Some (Plain kvs) \<Rightarrow>
          h[a := Plain (AList.update (case k of Name n \<Rightarrow> n | Index i \<Rightarrow> decimal i) x kvs)]
      | Some (Array vs) \<Rightarrow>
          (case k of
             Index i \<Rightarrow> h[a := Array ((vs @ replicate (Suc i - length vs) HUndefined)[i := x])]
           | Name n \<Rightarrow> h)
      | _ \<Rightarrow> h)"

text \<open>
  \<^verbatim>\<open>_.merge(object, source)\<close> in place, lodash 3's \<^verbatim>\<open>baseMerge\<close> and \<^verbatim>\<open>baseMergeDeep\<close>: for
  a source value that is an array or a plain object, the destination of the recursive merge
  is the value the object already holds at the key when that value is of the same kind
  (\<^verbatim>\<open>isArray(value) ? value : ...\<close>, \<^verbatim>\<open>isPlainObject(value) ? value : {}\<close>), and a new array or
  object otherwise. The recursion follows the source, which may be cyclic, so it takes fuel:
  \<open>None\<close> is a run that did not end within it. (lodash's stack of the sources already
  traversed is not modelled.)
\<close>

fun h_merge :: "nat \<Rightarrow> heap \<Rightarrow> nat \<Rightarrow> hval \<Rightarrow> heap option"
  and h_merge_keys :: "nat \<Rightarrow> heap \<Rightarrow> nat \<Rightarrow> hval \<Rightarrow> key list \<Rightarrow> heap option" where
  "h_merge 0 h object source = None"
| "h_merge (Suc n) h object source = h_merge_keys n h object source (h_keys h source)"
| "h_merge_keys n h object source [] = Some h"
| "h_merge_keys n h object source (k # ks) =
     (let srcValue = h_read h source k; value = h_read h (Ref object) k in
      case
        (case srcValue of
           Ref r \<Rightarrow>
             (case at h r of
                None \<Rightarrow> None
              | Some (ObjectId i) \<Rightarrow> Some (h_write h object k srcValue)
              | Some (Array vs) \<Rightarrow>
                  (case (case value of
                           Ref v \<Rightarrow> (case at h v of Some (Array ws) \<Rightarrow> (v, h)
                                                    | _ \<Rightarrow> alloc (Array []) h)
                         | HStr s \<Rightarrow> alloc (Array (chars s)) h
                         | _ \<Rightarrow> alloc (Array []) h) of
                     (result, h1) \<Rightarrow>
                       (case h_merge n h1 result srcValue of
                          None \<Rightarrow> None
                        | Some h2 \<Rightarrow> Some (h_write h2 object k (Ref result))))
              | Some (Plain kvs) \<Rightarrow>
                  (case (case value of
                           Ref v \<Rightarrow> (case at h v of Some (Plain ws) \<Rightarrow> (v, h)
                                                    | _ \<Rightarrow> alloc (Plain []) h)
                         | _ \<Rightarrow> alloc (Plain []) h) of
                     (result, h1) \<Rightarrow>
                       (case h_merge n h1 result srcValue of
                          None \<Rightarrow> None
                        | Some h2 \<Rightarrow> Some (h_write h2 object k (Ref result)))))
         | HUndefined \<Rightarrow>
             (case k of
                Index i \<Rightarrow> if h_has h object k then Some h
                            else Some (h_write h object k HUndefined)
              | Name nm \<Rightarrow> Some h)
         | prim \<Rightarrow> Some (h_write h object k prim)) of
        None \<Rightarrow> None
      | Some h' \<Rightarrow> h_merge_keys n h' object source ks)"

text \<open>
  \<^verbatim>\<open>_.map(v, undefined)\<close> and \<^verbatim>\<open>_.compact(v)\<close>, which return new arrays, and the transformers,
  which return new objects: \<open>h_in field xs\<close> allocates \<^verbatim>\<open>{field: {$in: xs}}\<close>.
  \<^verbatim>\<open>Tenge.makeOID\<close> is undefined, so \<^verbatim>\<open>_id\<close> throws and \<^verbatim>\<open>_ids\<close> maps with the identity.
\<close>

definition h_elems :: "heap \<Rightarrow> hval \<Rightarrow> hval list" where
  "h_elems h v = map (h_read h v) (h_keys h v)"

definition h_compact :: "heap \<Rightarrow> hval \<Rightarrow> hval list" where
  "h_compact h v =
     (case v of
        Ref a \<Rightarrow> (case at h a of Some (Array vs) \<Rightarrow> filter h_truthy vs | _ \<Rightarrow> [])
      | HStr s \<Rightarrow> filter h_truthy (chars s)
      | _ \<Rightarrow> [])"

definition h_in :: "string \<Rightarrow> hval list \<Rightarrow> heap \<Rightarrow> nat \<times> heap" where
  "h_in field xs h =
     (case alloc (Array xs) h of
        (arr, h1) \<Rightarrow>
          (case alloc (Plain [(''$in'', Ref arr)]) h1 of
             (cond, h2) \<Rightarrow> alloc (Plain [(field, Ref cond)]) h2))"

definition h_queryTransformers :: "string \<Rightarrow> (hval \<Rightarrow> heap \<Rightarrow> (error + nat) \<times> heap) option" where
  "h_queryTransformers key =
     (if key = ''id'' then
        Some (\<lambda>val h. case alloc (Plain [(''id'', val)]) h of (a, h1) \<Rightarrow> (Inr a, h1))
      else if key = ''ids'' then
        Some (\<lambda>val h. case h_in ''id'' (h_compact h val) h of (a, h1) \<Rightarrow> (Inr a, h1))
      else if key = ''_id'' then
        Some (\<lambda>val h. (Inl (TypeError ''Tenge.makeOID is not a function''), h))
      else if key = ''_ids'' then
        Some (\<lambda>val h. case alloc (Array (h_elems h val)) h of
                         (mapped, h1) \<Rightarrow>
                           (case h_in ''_id'' (h_compact h1 (Ref mapped)) h1 of
                              (a, h2) \<Rightarrow> (Inr a, h2)))
      else None)"

text \<open>The callback of \<^verbatim>\<open>_.transform\<close>, \<^verbatim>\<open>_.omit\<close> and \<^verbatim>\<open>_makeQuery\<close> on the heap.\<close>

fun h_transform :: "nat \<Rightarrow> heap \<Rightarrow> hval \<Rightarrow> key list \<Rightarrow> nat \<Rightarrow> ((error + unit) \<times> heap) option" where
  "h_transform fuel h dd [] query = Some (Inr (), h)"
| "h_transform fuel h dd (k # ks) query =
     (case h_queryTransformers (case k of Name n \<Rightarrow> n | Index i \<Rightarrow> decimal i) of
        None \<Rightarrow>
          Some (Inl (Error (''Tenge: No query transformer registered for '' @ [CHR 0x22]
                       @ ''$$.'' @ (case k of Name n \<Rightarrow> n | Index i \<Rightarrow> decimal i)
                       @ [CHR 0x22])), h)
      | Some transformer \<Rightarrow>
          (case transformer (h_read h dd k) h of
             (Inl e, h1) \<Rightarrow> Some (Inl e, h1)
           | (Inr fragment, h1) \<Rightarrow>
               (case h_merge fuel h1 query (Ref fragment) of
                  None \<Rightarrow> None
                | Some h2 \<Rightarrow> h_transform fuel h2 dd ks query)))"

definition h_omit :: "heap \<Rightarrow> hval \<Rightarrow> string \<Rightarrow> nat \<times> heap" where
  "h_omit h v k =
     alloc (Plain (AList.delete k
              (map (\<lambda>key. (case key of Name n \<Rightarrow> n | Index i \<Rightarrow> decimal i, h_read h v key))
                   (h_keys h v)))) h"

definition h_makeQuery :: "nat \<Rightarrow> heap \<Rightarrow> hval \<Rightarrow> ((error + hval) \<times> heap) option" where
  "h_makeQuery fuel h params =
     (case (case h_read h (h_read h params (Name ''query'')) (Name ''$$'') of
              HUndefined \<Rightarrow> (case alloc (Plain []) h of (a, h1) \<Rightarrow> (Ref a, h1))
            | v \<Rightarrow> (v, h)) of
        (dd, h1) \<Rightarrow>
          (case h_omit h1 (h_read h1 params (Name ''query'')) ''$$'' of
             (query, h2) \<Rightarrow>
               (case h_transform fuel h2 dd (h_keys h2 dd) query of
                  None \<Rightarrow> None
                | Some (Inl e, h3) \<Rightarrow> Some (Inl e, h3)
                | Some (Inr u, h3) \<Rightarrow>
                    (case alloc (Plain [(''query'', Ref query)]) h3 of
                       (res, h4) \<Rightarrow> Some (Inr (Ref res), h4)))))"

text \<open>
  The value of an address as a tree, as \<^verbatim>\<open>_.cloneDeep\<close> and chai's \<^verbatim>\<open>eql\<close> of the test
  helper \<^verbatim>\<open>transform\<close> read it.
\<close>

fun deep :: "nat \<Rightarrow> heap \<Rightarrow> hval \<Rightarrow> json option"
  and deep_list :: "nat \<Rightarrow> heap \<Rightarrow> hval list \<Rightarrow> json list option"
  and deep_props :: "nat \<Rightarrow> heap \<Rightarrow> (string \<times> hval) list \<Rightarrow> (string \<times> json) list option" where
  "deep n h HUndefined = Some Undefined"
| "deep n h HNull = Some Null"
| "deep n h (HBool b) = Some (JBool b)"
| "deep n h (HNum i) = Some (JNum i)"
| "deep n h (HStr s) = Some (JStr s)"
| "deep 0 h (Ref a) = None"
| "deep (Suc n) h (Ref a) =
     (case at h a of
        None \<Rightarrow> None
      | Some (ObjectId i) \<Rightarrow> Some (JOid i)
      | Some (Array vs) \<Rightarrow> map_option JArr (deep_list n h vs)
      | Some (Plain kvs) \<Rightarrow> map_option JObj (deep_props n h kvs))"
| "deep_list n h [] = Some []"
| "deep_list n h (v # vs) =
     (case deep n h v of
        None \<Rightarrow> None
      | Some j \<Rightarrow> map_option ((#) j) (deep_list n h vs))"
| "deep_props n h [] = Some []"
| "deep_props n h ((k, v) # kvs) =
     (case deep n h v of
        None \<Rightarrow> None
      | Some j \<Rightarrow> map_option ((#) (k, j)) (deep_props n h kvs))"

text \<open>
  A caller's \<^verbatim>\<open>params = {query: {id: {$ne: 'a'}, $$: {ids: ['b']}}}\<close> at address 0, and the
  heap after \<^verbatim>\<open>_makeQuery(params)\<close>.
\<close>

definition caller_heap :: heap where
  "caller_heap =
     [Plain [(''query'', Ref 1)],
      Plain [(''id'', Ref 2), (''$$'', Ref 3)],
      Plain [(''$ne'', HStr ''a'')],
      Plain [(''ids'', Ref 4)],
      Array [HStr ''b'']]"

definition after_heap :: heap where
  "after_heap =
     [Plain [(''query'', Ref 1)],
      Plain [(''id'', Ref 2), (''$$'', Ref 3)],
      Plain [(''$ne'', HStr ''a''), (''$in'', Ref 9)],
      Plain [(''ids'', Ref 4)],
      Array [HStr ''b''],
      Plain [(''id'', Ref 2)],
      Array [HStr ''b''],
      Plain [(''$in'', Ref 6)],
      Plain [(''id'', Ref 7)],
      Array [HStr ''b''],
      Plain [(''query'', Ref 5)]]"

section \<open>Objects and normalised queries\<close>

lemma getprop_update: "getprop (AList.update k v d) k' = (if k' = k then v else getprop d k')"
  by (simp add: getprop_def update_conv')

lemma getprop_Nil: "getprop [] k = Undefined"
  by (simp add: getprop_def)

lemma getprop_Cons: "getprop ((k, v) # kvs) k' = (if k' = k then v else getprop kvs k')"
  by (simp add: getprop_def)

lemma distinct_extend_obj: "distinct (map fst d) \<Longrightarrow> distinct (map fst (extend_obj d src))"
  by (induction d src rule: extend_obj.induct) (auto simp: distinct_update)

lemma distinct_defaults: "distinct (map fst d) \<Longrightarrow> distinct (map fst (defaults d src))"
  by (induction d src rule: defaults.induct) (auto simp: distinct_update)


lemma getprop_extend_obj:
  "distinct (map fst src) \<Longrightarrow>
   getprop (extend_obj d src) k = (case map_of src k of None \<Rightarrow> getprop d k | Some v \<Rightarrow> v)"
proof (induction d src rule: extend_obj.induct)
  case (1 dest)
  then show ?case by simp
next
  case (2 dest k' v src)
  then have none: "map_of src k' = None" and d: "distinct (map fst src)"
    by (auto simp: map_of_eq_None_iff)
  show ?case using 2(1)[OF d] none
    by (cases "k = k'") (simp_all add: getprop_update split: option.splits)
qed

lemma getprop_defaults_notin:
  "k \<notin> fst ` set src \<Longrightarrow> getprop (defaults d src) k = getprop d k"
  by (induction d src rule: defaults.induct) (auto simp: getprop_update)

lemma getprop_defaults:
  "distinct (map fst src) \<Longrightarrow>
   getprop (defaults d src) k = (if getprop d k = Undefined then getprop src k else getprop d k)"
proof (induction d src rule: defaults.induct)
  case (1 dest)
  then show ?case by (simp add: getprop_def)
next
  case (2 dest k' v src)
  then have notin: "k' \<notin> fst ` set src" and d: "distinct (map fst src)"
    by auto
  have none: "map_of src k' = None" using notin by (simp add: map_of_eq_None_iff)
  show ?case
  proof (cases "k = k'")
    case True
    then show ?thesis using notin none
      by (simp add: getprop_defaults_notin getprop_update) (simp add: getprop_def)
  next
    case False
    then show ?thesis using 2(1)[OF d]
      by (simp add: getprop_update) (simp add: getprop_def)
  qed
qed

lemma keys_merge_obj: "fst ` set (merge_obj d src) \<subseteq> fst ` set d \<union> fst ` set src"
proof (induction src arbitrary: d)
  case Nil
  then show ?case by simp
next
  case (Cons a src)
  obtain k sv where a: "a = (k, sv)" by (cases a)
  show ?case using Cons[of "if sv = Undefined then d else AList.update k (merge_at (getprop d k) sv) d"]
    by (auto simp: a dom_update image_iff split: if_splits) 
qed

lemma transformer_keys:
  "queryTransformers key = Some t \<Longrightarrow> t v = Inr frag \<Longrightarrow> fst ` set frag \<subseteq> {''id'', ''_id''}"
  by (auto simp: queryTransformers_def split: if_splits sum.splits)

lemma transform_keys:
  "transform es q = Inr q' \<Longrightarrow> fst ` set q' \<subseteq> fst ` set q \<union> {''id'', ''_id''}"
proof (induction es q rule: transform.induct)
  case (1 query)
  then show ?case by auto
next
  case (2 key val rest query)
  from 2(2) obtain t frag where t: "queryTransformers key = Some t" and f: "t val = Inr frag"
    and r: "transform rest (merge_obj query frag) = Inr q'"
    by (auto split: option.splits sum.splits)
  from 2(1)[OF t f r] keys_merge_obj[of query frag] transformer_keys[OF t f]
  show ?case by blast
qed

lemma makeQuery_no_marker:
  assumes "makeQuery params = Inr r"
  obtains nq where "r = [(''query'', JObj nq)]" and "''$$'' \<notin> fst ` set nq"
proof -
  from assms obtain dd nq where t: "transform (entries dd) (omit (getprop params ''query'') ''$$'') = Inr nq"
    and r: "r = [(''query'', JObj nq)]"
    by (auto simp: makeQuery_def Let_def split: sum.splits)
  have "''$$'' \<notin> fst ` set (omit (getprop params ''query'') ''$$'')"
    by (simp add: omit_def delete_notin_dom)
  with transform_keys[OF t] have "''$$'' \<notin> fst ` set nq" by auto
  with r that show thesis by blast
qed

lemma makeQuery_normal:
  assumes "getprop P ''query'' = JObj nq" and "''$$'' \<notin> fst ` set nq"
  shows "makeQuery P = Inr [(''query'', JObj nq)]"
proof -
  have "map_of nq ''$$'' = None" using assms(2) by (simp add: map_of_eq_None_iff)
  then have g: "getprop nq ''$$'' = Undefined" by (simp add: getprop_def)
  have d: "AList.delete ''$$'' nq = nq" using assms(2) by simp
  show ?thesis by (simp add: makeQuery_def assms(1) g omit_def d)
qed

lemma collection_ready:
  "truthy (collection_name s) \<Longrightarrow> col_set s \<Longrightarrow> collection drv s = (Done (), s)"
  by (simp add: collection_def assert_def)

lemma collection_Done:
  assumes "collection drv s = (Done u, s1)"
  shows "truthy (collection_name s1) \<and> col_set s1"
  using assms
  by (auto simp: collection_def assert_def initCollection_def issue_def Let_def
           split: if_splits prod.splits outcome.splits sum.splits)

lemma find_op_run:
  assumes "getprop P ''query'' = JObj nq" and "''$$'' \<notin> fst ` set nq"
    and "collection drv s = (Done (), s1)"
    and "c = cursor_for (defaults (defaults [(''query'', JObj nq)] P) [(''fields'', JObj [])])"
    and "col_toArray drv c (world s1) = (r, w)"
  shows "find_op drv P s =
           ((case r of Inl e \<Rightarrow> Failed (Passed e) | Inr x \<Rightarrow> Done x),
            s1\<lparr>world := w, issued := issued s1 @ [ToArray c]\<rparr>)"
  using assms(4,5)
  by (simp add: find_op_def on_cursor_def findCursor_def makeQuery_normal[OF assms(1,2)]
        assms(3) issue_def Let_def split: sum.splits)

lemma find_op_ready:
  assumes "getprop P ''query'' = JObj nq" and "''$$'' \<notin> fst ` set nq"
    and "truthy (collection_name s)" and "col_set s"
    and "c = cursor_for (defaults (defaults [(''query'', JObj nq)] P) [(''fields'', JObj [])])"
    and "col_toArray drv c (world s) = (r, w)"
  shows "find_op drv P s =
           ((case r of Inl e \<Rightarrow> Failed (Passed e) | Inr x \<Rightarrow> Done x),
            s\<lparr>world := w, issued := issued s @ [ToArray c]\<rparr>)"
  using assms(5,6)
  by (simp add: find_op_def on_cursor_def findCursor_def makeQuery_normal[OF assms(1,2)]
        collection_ready[OF assms(3,4)] issue_def Let_def split: sum.splits)

lemma getprop_copy:
  assumes "distinct (map fst p)"
  shows "getprop (extend_obj [] p) k = getprop p k"
proof -
  have "getprop (extend_obj [] p) k = (case map_of p k of None \<Rightarrow> getprop [] k | Some v \<Rightarrow> v)"
    by (rule getprop_extend_obj[OF assms])
  also have "\<dots> = getprop p k"
    by (simp add: getprop_def split: option.splits)
  finally show ?thesis .
qed

lemma key_in_defined: "key_in ids \<noteq> Undefined"
  by (simp add: key_in_def)

lemma getprop_defaults_single:
  "getprop (defaults d [(k', v)]) k = (if k = k' \<and> getprop d k = Undefined then v else getprop d k)"
  by (auto simp: getprop_update)

lemma updateAll_params:
  assumes "distinct (map fst params)"
    and "p = defaults (defaults [(''query'', JObj nq)] params) [(''sort'', dflt)]"
  shows "distinct (map fst p)"
    and "getprop p k = (if k = ''query'' then JObj nq
                        else if k = ''sort'' \<and> getprop params ''sort'' = Undefined then dflt
                        else getprop params k)"
  unfolding assms(2)
  by (auto simp add: distinct_defaults getprop_defaults_single getprop_defaults[OF assms(1)]
        getprop_Cons getprop_Nil simp del: defaults.simps)

lemma getprop_with:
  "distinct (map fst p) \<Longrightarrow>
   getprop (extend_obj (extend_obj [] p) [(f, v)]) k = (if k = f then v else getprop p k)"
  by (simp add: getprop_update getprop_copy)

lemma distinct_with: "distinct (map fst (extend_obj (extend_obj [] p) [(f, v)]))"
  by (simp add: distinct_extend_obj del: extend_obj.simps)

lemma cursor_for_completed:
  assumes "distinct (map fst P)" and "q \<noteq> Undefined"
  shows "cursor_for (defaults (defaults [(''query'', q)] P) [(''fields'', JObj [])]) =
     \<lparr>c_query = q,
      c_fields = (if getprop P ''fields'' = Undefined then JObj [] else getprop P ''fields''),
      c_sort = (if truthy (getprop P ''sort'') then getprop P ''sort'' else Undefined),
      c_skip = (if truthy (getprop P ''skip'') then getprop P ''skip'' else Undefined),
      c_limit = (if truthy (getprop P ''limit'') then getprop P ''limit'' else Null)\<rparr>"
  using assms(2)
  by (simp add: cursor_for_def getprop_defaults_single getprop_defaults[OF assms(1)] getprop_Cons
        getprop_Nil del: defaults.simps)


section \<open>Properties of hook chains\<close>

lemma runHooks_append:
  "runHooks (hs1 @ hs2) docs w =
     (case runHooks hs1 docs w of
        ((None, docs1), w1) \<Rightarrow> runHooks hs2 docs1 w1
      | ((Some e, docs1), w1) \<Rightarrow> ((Some e, docs1), w1))"
  by (induction hs1 arbitrary: docs w) (auto split: prod.splits)

text \<open>Registration puts a handler at the end of its chain: a chain is in registration order.\<close>

lemma before_registers_last:
  "before ''insert'' h r = Inr r' \<Longrightarrow> b_insert (h_before r') = b_insert (h_before r) @ [h]"
  "before ''remove'' h r = Inr r' \<Longrightarrow> b_remove (h_before r') = b_remove (h_before r) @ [h]"
  by (auto simp: before_def)

lemma after_registers_last:
  "after ''insert'' h r = Inr r' \<Longrightarrow> a_insert (h_after r') = a_insert (h_after r) @ [h]"
  "after ''update'' h r = Inr r' \<Longrightarrow> a_update (h_after r') = a_update (h_after r) @ [h]"
  "after ''upsert'' h r = Inr r' \<Longrightarrow> a_upsert (h_after r') = a_upsert (h_after r) @ [h]"
  "after ''remove'' h r = Inr r' \<Longrightarrow> a_remove (h_after r') = a_remove (h_after r) @ [h]"
  by (auto simp: after_def)

text \<open>Handlers that all pass: what \<^verbatim>\<open>_runHooks\<close> gives, and what a trace shows of the run.\<close>

lemma passes_runHooks:
  "passes hs docs w ps out wo \<Longrightarrow> runHooks hs docs w = ((None, out), wo)"
  by (induction rule: passes.induct) simp_all

lemma passes_length: "passes hs docs w ps out wo \<Longrightarrow> length ps = length hs"
  by (induction rule: passes.induct) simp_all

lemma passes_first: "passes hs docs w ps out wo \<Longrightarrow> hd (ps @ [out]) = docs"
  by (induction rule: passes.induct) simp_all

lemma traced_apply:
  "traced i h docs (w, l) = (case h docs w of (r, w') \<Rightarrow> (r, (w', l @ [(i, docs)])))"
  by (simp add: traced_def)

lemma traced_from_append:
  "traced_from i (xs @ ys) = traced_from i xs @ traced_from (i + length xs) ys"
  by (induction xs arbitrary: i) simp_all

lemma passes_traced:
  "passes hs docs w ps out wo \<Longrightarrow>
   runHooks (traced_from i hs) docs (w, l) = ((None, out), (wo, l @ zip [i..<i + length hs] ps))"
proof (induction arbitrary: i l rule: passes.induct)
  case (none docs w)
  then show ?case by simp
next
  case (step h docs w err docs1 w1 hs ps out wo)
  have "i < i + length (h # hs)" by simp
  then have "[i..<i + length (h # hs)] = i # [Suc i..<Suc i + length hs]"
    by (subst upt_conv_Cons) simp_all
  then show ?case using step.hyps(1,2) step.IH[of "Suc i" "l @ [(i, docs)]"]
    by (simp add: traced_apply)
qed

lemma fails_traced:
  assumes "passes pre docs w ps mid wm" and "h mid wm = ((err, out), wo)" and "truthy err"
  shows "runHooks (traced_from i (pre @ h # post)) docs (w, l)
         = ((Some (Passed err), out),
            (wo, l @ zip [i..<i + length pre] ps @ [(i + length pre, mid)]))"
  using assms(2,3)
  by (simp add: traced_from_append runHooks_append passes_traced[OF assms(1)] traced_apply)

text \<open>The two hook stages of \<^verbatim>\<open>insert\<close> on an initialised model.\<close>

lemma insert_op_ready:
  assumes "truthy (collection_name s)" and "col_set s"
    and "docs = compact (concat_arg (getprop params ''doc'') @ concat_arg (getprop params ''docs''))"
  shows "insert_op drv params s =
           (case run_chain (b_insert (h_before (hooks s))) docs s of
              ((Some e, docs1), s2) \<Rightarrow> (Failed e, s2)
            | ((None, docs1), s2) \<Rightarrow>
                (case issue (Insert docs1) (col_insert drv docs1) s2 of
                   (Inl e, s3) \<Rightarrow> (Failed (Passed e), s3)
                 | (Inr docs2, s3) \<Rightarrow>
                     finish (run_chain (a_insert (h_after (hooks s3))) docs2 s3)))"
  by (simp add: insert_op_def collection_ready[OF assms(1,2)] assms(3) assert_def Let_def
        split: prod.splits option.splits)

lemma insert_op_fails_traced:
  assumes "passes pre docs w ps mid wm" and "h mid wm = ((err, out), wo)" and "truthy err"
    and "truthy (collection_name s)" and "col_set s" and "world s = (w, [])"
    and "b_insert (h_before (hooks s)) = traced_from 0 (pre @ h # post)"
    and "docs = compact (concat_arg (getprop params ''doc'') @ concat_arg (getprop params ''docs''))"
  shows "insert_op drv params s
         = (Failed (Passed err),
            s\<lparr>world := (wo, zip [0..<length pre] ps @ [(length pre, mid)])\<rparr>)"
  using fails_traced[where h = h and i = 0 and l = "[]" and post = post, OF assms(1,2,3)]
  by (simp add: insert_op_ready[OF assms(4,5,8)] run_chain_def assms(6,7))

lemma insert_op_passes_traced:
  assumes "passes pre docs w ps mid wm"
    and "truthy (collection_name s)" and "col_set s" and "world s = (w, [])"
    and "b_insert (h_before (hooks s)) = traced_from 0 pre"
    and "a_insert (h_after (hooks s)) = traced_from (length pre) post"
    and "docs = compact (concat_arg (getprop params ''doc'') @ concat_arg (getprop params ''docs''))"
    and "col_insert drv mid wm = (Inr inserted, w3)"
    and "passes post inserted w3 ps' out wo"
  shows "insert_op (traced_driver drv) params s
         = (Done out,
            s\<lparr>world := (wo, zip [0..<length pre] ps
                               @ zip [length pre..<length pre + length post] ps'),
              issued := issued s @ [Insert mid]\<rparr>)"
  using passes_traced[OF assms(1), of 0 "[]"]
        passes_traced[OF assms(9), of "length pre" "zip [0..<length pre] ps"]
  by (simp add: insert_op_ready[OF assms(2,3,7)] run_chain_def assms(4,5,6,8) issue_def
        traced_driver_def on_fst_def finish_def)

text \<open>
  C6. The handlers of a chain are invoked in the order of the list, which is the order of
  registration, each with the payload and the outside state its predecessor left. Let the
  handlers \<open>pre\<close> pass one after the other from the payload \<open>docs\<close> (\<open>passes\<close>, which
  speaks of the handlers' own results only), leaving the payload \<open>mid\<close>, and let the next
  handler \<open>h\<close>, given \<open>mid\<close>, pass a truthy error to \<^verbatim>\<open>next\<close> and leave the payload
  \<open>out\<close>. Then the run of \<^verbatim>\<open>_runHooks\<close> over \<open>pre\<close>, \<open>h\<close> and whatever handlers
  \<open>post\<close> are registered after \<open>h\<close> ends at \<open>h\<close>: the callback gets the error of \<open>h\<close>
  together with the payload as \<open>h\<close> left it, which holds the changes of \<open>pre\<close> and of
  \<open>h\<close>; and the trace of the run shows the handlers of \<open>pre\<close> and then \<open>h\<close>, each
  invoked once, and no handler of \<open>post\<close>.
\<close>

theorem runHooks_halts_at_first_failure:
  assumes "passes pre docs w ps mid wm"
    and "h mid wm = ((err, out), wo)"
    and "truthy err"
  shows "runHooks (pre @ h # post) docs w = ((Some (Passed err), out), wo)
       \<and> runHooks (traced_from 0 (pre @ h # post)) docs (w, [])
           = ((Some (Passed err), out), (wo, zip [0..<length pre] ps @ [(length pre, mid)]))"
  using assms(2,3) fails_traced[where h = h and i = 0 and l = "[]" and post = post, OF assms]
  by (simp add: runHooks_append passes_runHooks[OF assms(1)])

theorem runHooks_halts_at_first_failure_witness:
  "passes [push_hook 1 Undefined, push_hook 2 Undefined] [] 0 [[], [JNum 1]] [JNum 1, JNum 2] 2
   \<and> push_hook 3 (JStr ''error'') [JNum 1, JNum 2] 2
       = ((JStr ''error'', [JNum 1, JNum 2, JNum 3]), 3)
   \<and> truthy (JStr ''error'')
   \<and> runHooks ([push_hook 1 Undefined, push_hook 2 Undefined]
         @ push_hook 3 (JStr ''error'') # [push_hook 4 Undefined]) [] 0
       = ((Some (Passed (JStr ''error'')), [JNum 1, JNum 2, JNum 3]), 3)
   \<and> runHooks (traced_from 0 ([push_hook 1 Undefined, push_hook 2 Undefined]
         @ push_hook 3 (JStr ''error'') # [push_hook 4 Undefined])) [] (0, [])
       = ((Some (Passed (JStr ''error'')), [JNum 1, JNum 2, JNum 3]),
          (3, [(0, []), (1, [JNum 1]), (2, [JNum 1, JNum 2])]))"
proof -
  have a: "passes [push_hook 1 Undefined, push_hook 2 Undefined] [] 0 [[], [JNum 1]]
             [JNum 1, JNum 2] 2"
    by code_simp
  have b: "push_hook 3 (JStr ''error'') [JNum 1, JNum 2] 2
             = ((JStr ''error'', [JNum 1, JNum 2, JNum 3]), 3)"
    by (simp add: push_hook_def)
  have c: "truthy (JStr ''error'')" by simp
  from runHooks_halts_at_first_failure
         [where h = "push_hook 3 (JStr ''error'')" and post = "[push_hook 4 Undefined]", OF a b c]
       a b c
  show ?thesis by (simp add: upt_rec)
qed

section \<open>updateOne\<close>


text \<open>The definitions that evaluate the examples.\<close>

lemmas eval_defs = makeQuery_def omit_def queryTransformers_def getprop_def compact_def
  pluck_def key_in_def cursor_for_def issue_def run_chain_def finish_def finish_with_def
  callback_doc_def
  ready_def friends_def person_def mark_hook_def marking_def levitate_def reading_def
  slice_hook_def removing_def record_hook_def
  mem_driver_def mem_update_def mem_findAndModify_def matches_def holds_def apply_set_def
  equalities_def created_def cursor_yield_def cursor_count_def cursor_size_def skip_of_def
  limited_def assert_def collection_def decimal.simps digit_def Let_def


section \<open>updateAll\<close>

text \<open>
  The requests of \<^verbatim>\<open>updateAll\<close> on an initialised model, whatever the store answers. The
  first query is a find on the normalised filter with the projection \<^verbatim>\<open>{_id: true}\<close>, under
  the caller's sort (\<^verbatim>\<open>{_id: 1}\<close> when none is given), skip and limit. With \<open>ids\<close> the
  keys of the documents it returns: the update goes to the normalised filter with
  \<^verbatim>\<open>{upsert: true, multi: true}\<close> when \<open>ids\<close> is empty and \<^verbatim>\<open>upsert\<close> is requested, and
  to \<^verbatim>\<open>{_id: {$in: ids}}\<close> with \<^verbatim>\<open>{multi: true}\<close> otherwise; the keys to fetch are \<open>ids\<close>,
  or those of \<^verbatim>\<open>result.upserted\<close> when \<open>ids\<close> is empty; when there are keys, the documents
  are fetched with the filter \<^verbatim>\<open>{_id: {$in: keys}}\<close> under the caller's projection and the
  same sort, skip and limit, and what the store returns goes through the after-update hooks
  when \<open>ids\<close> was not empty, through the after-upsert hooks otherwise.
\<close>

lemma col_set_same: "col_set s \<Longrightarrow> s\<lparr>col_set := True\<rparr> = s"
  by (cases s) simp

lemma updateAll_requests:
  assumes mq: "makeQuery params = Inr [(''query'', JObj nq)]"
    and dist: "distinct (map fst params)"
    and name: "truthy (collection_name s)"
    and init: "col_set s"
    and srt: "srt = (if getprop params ''sort'' = Undefined then JObj [(''_id'', JNum 1)]
                     else if truthy (getprop params ''sort'') then getprop params ''sort''
                     else Undefined)"
    and skp: "skp = (if truthy (getprop params ''skip'') then getprop params ''skip''
                     else Undefined)"
    and lmt: "lmt = (if truthy (getprop params ''limit'') then getprop params ''limit''
                     else Null)"
    and snap: "snapshot = \<lparr>c_query = JObj nq, c_fields = JObj [(''_id'', JBool True)],
                           c_sort = srt, c_skip = skp, c_limit = lmt\<rparr>"
    and found: "col_toArray drv snapshot (world s) = (Inr docsToUpdate, w2)"
    and ids: "ids = pluck docsToUpdate ''_id''"
    and flt: "flt = (if ids = [] \<and> truthy (getprop params ''upsert'') then JObj nq
                     else key_in ids)"
    and opts: "opts = (if ids = [] \<and> truthy (getprop params ''upsert'')
                       then JObj [(''upsert'', JBool True), (''multi'', JBool True)]
                       else JObj [(''multi'', JBool True)])"
    and upd: "col_update drv flt (getprop params ''update'') opts w2 = (Inr report, w3)"
    and keys: "keys = (if ids \<noteq> [] then ids
                       else pluck_val (getprop report ''upserted'') ''_id'')"
    and re: "refetch = \<lparr>c_query = key_in keys,
                          c_fields = (if getprop params ''fields'' = Undefined then JObj []
                                      else getprop params ''fields''),
                          c_sort = srt, c_skip = skp, c_limit = lmt\<rparr>"
    and fetched: "keys \<noteq> [] \<Longrightarrow> col_toArray drv refetch w3 = (Inr docs, w4)"
    and s3: "s3 = s\<lparr>world := w3,
                     issued := issued s @ [ToArray snapshot,
                                           Update flt (getprop params ''update'') opts]\<rparr>"
    and s4: "s4 = s\<lparr>world := w4,
                     issued := issued s @ [ToArray snapshot,
                                           Update flt (getprop params ''update'') opts,
                                           ToArray refetch]\<rparr>"
  shows "updateAll drv params s =
           (if keys = [] then (Done [], s3)
            else if docs = [] then (Done [], s4)
            else if ids \<noteq> [] then finish (run_chain (a_update (h_after (hooks s))) docs s4)
            else finish (run_chain (a_upsert (h_after (hooks s))) docs s4))"
proof -
  define p where
    "p = defaults (defaults [(''query'', JObj nq)] params) [(''sort'', JObj [(''_id'', JNum 1)])]"
  note pp = updateAll_params[OF dist p_def]
  obtain nm: "''$$'' \<notin> fst ` set nq"
    using makeQuery_no_marker[OF mq] by auto
  let ?P1 = "extend_obj (extend_obj [] p) [(''fields'', JObj [(''_id'', JBool True)])]"
  let ?P2 = "extend_obj (extend_obj [] p) [(''query'', key_in keys)]"
  let ?s2 = "s\<lparr>world := w2, issued := issued s @ [ToArray snapshot]\<rparr>"
  have q1: "getprop ?P1 ''query'' = JObj nq"
    by (simp add: getprop_with pp del: extend_obj.simps)
  have q2: "getprop ?P2 ''query'' = key_in keys"
    by (simp add: getprop_with pp del: extend_obj.simps)
  have c1: "snapshot = cursor_for (defaults (defaults [(''query'', JObj nq)] ?P1)
                                     [(''fields'', JObj [])])"
    unfolding snap srt skp lmt
    by (simp add: cursor_for_completed[OF distinct_with] getprop_with pp
          del: defaults.simps extend_obj.simps)
  have c2: "refetch = cursor_for (defaults (defaults [(''query'', key_in keys)] ?P2)
                                    [(''fields'', JObj [])])"
    unfolding re srt skp lmt
    by (simp add: cursor_for_completed[OF distinct_with key_in_defined] getprop_with pp
          del: defaults.simps extend_obj.simps)
  have find1: "find_op drv ?P1 s = (Done docsToUpdate, ?s2)"
    using find_op_ready[OF q1 nm name init c1 found] by simp
  have both: "beside s (find_op drv ?P1) s = (Done docsToUpdate, ?s2)"
    using init find1 by (simp add: beside_def col_set_same)
  have km: "''$$'' \<notin> fst ` set [(''_id'', JObj [(''$in'', JArr keys)])]" by simp
  have find2: "find_op drv ?P2 s3 = (Done docs, s4)" if "keys \<noteq> []"
    using find_op_ready[of ?P2 "[(''_id'', JObj [(''$in'', JArr keys)])]" s3 refetch drv
            "Inr docs" w4] q2 km name init c2 fetched[OF that]
    by (simp add: key_in_def s3 s4)
  have upd': "issue (Update flt (getprop params ''update'') opts)
                (col_update drv flt (getprop params ''update'') opts) ?s2 = (Inr report, s3)"
    using upd by (simp add: issue_def s3)
  have step2: "(if ids = [] \<and> truthy (getprop p ''upsert'') then
                  issue (Update (getprop p ''query'') (getprop p ''update'')
                           (JObj [(''upsert'', JBool True), (''multi'', JBool True)]))
                    (col_update drv (getprop p ''query'') (getprop p ''update'')
                           (JObj [(''upsert'', JBool True), (''multi'', JBool True)])) ?s2
                else
                  issue (Update (key_in ids) (getprop p ''update'')
                           (JObj [(''multi'', JBool True)]))
                    (col_update drv (key_in ids) (getprop p ''update'')
                           (JObj [(''multi'', JBool True)])) ?s2) = (Inr report, s3)"
    using upd' unfolding flt opts
    by (cases "ids = [] \<and> truthy (getprop params ''upsert'')") (auto simp add: pp)
  have h4: "hooks s4 = hooks s" by (simp add: s4)
  show ?thesis
  proof (cases "keys = []")
    case True
    then show ?thesis
      using keys
      by (simp add: updateAll_def mq collection_ready[OF name init] p_def[symmetric] both
            ids[symmetric] step2 Let_def del: defaults.simps extend_obj.simps split: if_splits)
  next
    case False
    then show ?thesis
      using keys find2[OF False]
      by (simp add: h4 updateAll_def mq collection_ready[OF name init] p_def[symmetric] both
            ids[symmetric] step2 Let_def del: defaults.simps extend_obj.simps split: if_splits)
  qed
qed

text \<open>
  On a model that is not yet initialised, the first step initialises the collection twice:
  \<^verbatim>\<open>ensureIndex\<close> is sent twice and the id hook is registered twice.
\<close>

lemma updateAll_first_use:
  "issued (snd (updateAll mem_driver reading ((ready marking friends)\<lparr>col_set := False\<rparr>)))
     = [EnsureIndex (JObj [(''id'', JNum 1)]) (JObj [(''unique'', JBool True)]),
        EnsureIndex (JObj [(''id'', JNum 1)]) (JObj [(''unique'', JBool True)]),
        ToArray \<lparr>c_query = JObj [(''age'', JNum 17)], c_fields = JObj [(''_id'', JBool True)],
                  c_sort = JObj [(''_id'', JNum 1)], c_skip = Undefined, c_limit = Null\<rparr>,
        Update (key_in [JOid ''0'', JOid ''1'', JOid ''2''])
          (JObj [(''$set'', JObj [(''hobby'', JStr ''reading'')])])
          (JObj [(''multi'', JBool True)]),
        ToArray \<lparr>c_query = key_in [JOid ''0'', JOid ''1'', JOid ''2''], c_fields = JObj [],
                  c_sort = JObj [(''_id'', JNum 1)], c_skip = Undefined, c_limit = Null\<rparr>]
   \<and> length (b_insert (h_before (hooks (snd (updateAll mem_driver reading
               ((ready marking friends)\<lparr>col_set := False\<rparr>)))))) = 2"
  by (simp add: updateAll_def beside_def find_op_def on_cursor_def findCursor_def
        initCollection_def before_def eval_defs)











text \<open>
  C2. On an initialised model, when the first query returns no document: without \<^verbatim>\<open>upsert\<close>
  (and with a store that reports no upserted key for an update without \<^verbatim>\<open>upsert\<close>) the
  result is the empty list, no document is fetched again and no hook runs, the one request
  after the first query being an update over the empty key set; with \<^verbatim>\<open>upsert\<close> the
  multi-update is sent with the normalised filter of the caller and the options
  \<^verbatim>\<open>{upsert: true, multi: true}\<close>, the keys are taken from \<^verbatim>\<open>result.upserted\<close>, the
  documents with those keys are fetched, and what the store returns goes through the
  after-upsert hooks only and is the result.
\<close>

theorem updateAll_no_match:
  assumes mq: "makeQuery params = Inr [(''query'', JObj nq)]"
    and dist: "distinct (map fst params)"
    and name: "truthy (collection_name s)"
    and init: "col_set s"
    and srt: "srt = (if getprop params ''sort'' = Undefined then JObj [(''_id'', JNum 1)]
                     else if truthy (getprop params ''sort'') then getprop params ''sort''
                     else Undefined)"
    and skp: "skp = (if truthy (getprop params ''skip'') then getprop params ''skip''
                     else Undefined)"
    and lmt: "lmt = (if truthy (getprop params ''limit'') then getprop params ''limit''
                     else Null)"
    and snap: "snapshot = \<lparr>c_query = JObj nq, c_fields = JObj [(''_id'', JBool True)],
                           c_sort = srt, c_skip = skp, c_limit = lmt\<rparr>"
    and found: "col_toArray drv snapshot (world s) = (Inr [], w2)"
  shows "(\<not> truthy (getprop params ''upsert'')
          \<and> col_update drv (key_in []) (getprop params ''update'')
                (JObj [(''multi'', JBool True)]) w2 = (Inr report, w3)
          \<and> pluck_val (getprop report ''upserted'') ''_id'' = []
          \<longrightarrow> updateAll drv params s =
                (Done [], s\<lparr>world := w3,
                     issued := issued s @ [ToArray snapshot,
                       Update (key_in []) (getprop params ''update'')
                         (JObj [(''multi'', JBool True)])]\<rparr>))
       \<and> (truthy (getprop params ''upsert'')
          \<and> col_update drv (JObj nq) (getprop params ''update'')
                (JObj [(''upsert'', JBool True), (''multi'', JBool True)]) w2 = (Inr report, w3)
          \<and> keys = pluck_val (getprop report ''upserted'') ''_id'' \<and> keys \<noteq> []
          \<and> refetch = \<lparr>c_query = key_in keys,
                          c_fields = (if getprop params ''fields'' = Undefined then JObj []
                                      else getprop params ''fields''),
                          c_sort = srt, c_skip = skp, c_limit = lmt\<rparr>
          \<and> col_toArray drv refetch w3 = (Inr docs, w4)
          \<and> s4 = s\<lparr>world := w4,
                     issued := issued s @ [ToArray snapshot,
                       Update (JObj nq) (getprop params ''update'')
                         (JObj [(''upsert'', JBool True), (''multi'', JBool True)]),
                       ToArray refetch]\<rparr>
          \<longrightarrow> updateAll drv params s =
                (if docs = [] then (Done [], s4)
                 else finish (run_chain (a_upsert (h_after (hooks s))) docs s4)))"
proof -
  have ids: "[] = pluck [] ''_id''" by (simp add: pluck_def)
  have a: "updateAll drv params s =
             (Done [], s\<lparr>world := w3,
                  issued := issued s @ [ToArray snapshot,
                    Update (key_in []) (getprop params ''update'')
                      (JObj [(''multi'', JBool True)])]\<rparr>)"
    if no: "\<not> truthy (getprop params ''upsert'')"
      and upd: "col_update drv (key_in []) (getprop params ''update'')
             (JObj [(''multi'', JBool True)]) w2 = (Inr report, w3)"
      and none: "pluck_val (getprop report ''upserted'') ''_id'' = []"
  proof -
    have flt: "key_in [] = (if [] = ([] :: json list) \<and> truthy (getprop params ''upsert'')
                            then JObj nq else key_in [])"
      and opts: "JObj [(''multi'', JBool True)]
                 = (if [] = ([] :: json list) \<and> truthy (getprop params ''upsert'')
                    then JObj [(''upsert'', JBool True), (''multi'', JBool True)]
                    else JObj [(''multi'', JBool True)])"
      using no by simp_all
    have keys: "[] = (if ([] :: json list) \<noteq> [] then []
                      else pluck_val (getprop report ''upserted'') ''_id'')"
      using none by simp
    from updateAll_requests[OF mq dist name init srt skp lmt snap found ids flt opts upd keys
        refl _ refl refl, of "[]" w3]
    show ?thesis by simp
  qed
  have b: "updateAll drv params s =
               (if docs = [] then (Done [], s4)
                else finish (run_chain (a_upsert (h_after (hooks s))) docs s4))"
    if up: "truthy (getprop params ''upsert'')"
      and upd: "col_update drv (JObj nq) (getprop params ''update'')
             (JObj [(''upsert'', JBool True), (''multi'', JBool True)]) w2 = (Inr report, w3)"
      and keys: "keys = pluck_val (getprop report ''upserted'') ''_id''" and ne: "keys \<noteq> []"
      and re: "refetch = \<lparr>c_query = key_in keys,
                          c_fields = (if getprop params ''fields'' = Undefined then JObj []
                                      else getprop params ''fields''),
                          c_sort = srt, c_skip = skp, c_limit = lmt\<rparr>"
      and fetched: "col_toArray drv refetch w3 = (Inr docs, w4)"
      and s4: "s4 = s\<lparr>world := w4,
                     issued := issued s @ [ToArray snapshot,
                       Update (JObj nq) (getprop params ''update'')
                         (JObj [(''upsert'', JBool True), (''multi'', JBool True)]),
                       ToArray refetch]\<rparr>"
  proof -
    have flt: "JObj nq = (if [] = ([] :: json list) \<and> truthy (getprop params ''upsert'')
                          then JObj nq else key_in [])"
      and opts: "JObj [(''upsert'', JBool True), (''multi'', JBool True)]
                 = (if [] = ([] :: json list) \<and> truthy (getprop params ''upsert'')
                    then JObj [(''upsert'', JBool True), (''multi'', JBool True)]
                    else JObj [(''multi'', JBool True)])"
      using up by simp_all
    have keys': "keys = (if ([] :: json list) \<noteq> [] then []
                         else pluck_val (getprop report ''upserted'') ''_id'')"
      using keys by simp
    from updateAll_requests[OF mq dist name init srt skp lmt snap found ids flt opts upd keys'
        re fetched refl s4] ne
    show ?thesis by simp
  qed
  from a b show ?thesis by blast
qed

theorem updateAll_no_match_witness:
  "fst (updateAll mem_driver levitate (ready marking friends)) = Done []
   \<and> issued (snd (updateAll mem_driver levitate (ready marking friends)))
       = [ToArray \<lparr>c_query = JObj [(''age'', JNum 150)], c_fields = JObj [(''_id'', JBool True)],
                    c_sort = JObj [(''_id'', JNum 1)], c_skip = Undefined, c_limit = Null\<rparr>,
          Update (key_in []) (JObj [(''$set'', JObj [(''hobby'', JStr ''levitate'')])])
            (JObj [(''multi'', JBool True)])]
   \<and> fst (updateAll mem_driver (levitate @ [(''upsert'', JBool True)]) (ready marking friends))
       = Done [JObj [(''_id'', JOid ''5''), (''age'', JNum 150), (''hobby'', JStr ''levitate''),
                     (''upserted'', JBool True)]]"
proof -
  let ?nq = "[(''age'', JNum 150)]"
  let ?up = "levitate @ [(''upsert'', JBool True)]"
  let ?new = "JObj [(''_id'', JOid ''5''), (''age'', JNum 150), (''hobby'', JStr ''levitate'')]"
  let ?w3 = "friends\<lparr>stored := stored friends @ [?new], fresh := 6\<rparr>"
  let ?snap = "\<lparr>c_query = JObj ?nq, c_fields = JObj [(''_id'', JBool True)],
                c_sort = JObj [(''_id'', JNum 1)], c_skip = Undefined, c_limit = Null\<rparr>"
  have 3: "truthy (collection_name (ready marking friends))" "col_set (ready marking friends)"
    by (simp_all add: ready_def)
  have 8: "col_toArray mem_driver ?snap (world (ready marking friends)) = (Inr [], friends)"
    by (simp add: eval_defs)
  have a1: "makeQuery levitate = Inr [(''query'', JObj ?nq)]"
    by (simp add: eval_defs)
  have a2: "distinct (map fst levitate)" by (simp add: levitate_def)
  have a4: "JObj [(''_id'', JNum 1)]
             = (if getprop levitate ''sort'' = Undefined then JObj [(''_id'', JNum 1)]
                else if truthy (getprop levitate ''sort'') then getprop levitate ''sort''
                else Undefined)"
    and a5: "Undefined = (if truthy (getprop levitate ''skip'') then getprop levitate ''skip''
                          else Undefined)"
    and a6: "Null = (if truthy (getprop levitate ''limit'') then getprop levitate ''limit''
                     else Null)"
    by (simp_all add: eval_defs)
  have a7: "\<not> truthy (getprop levitate ''upsert'')" by (simp add: eval_defs)
  have a8: "col_update mem_driver (key_in []) (getprop levitate ''update'')
                (JObj [(''multi'', JBool True)]) friends = (Inr [(''n'', JNum 0)], friends)"
    by (simp add: eval_defs)
  have a9: "pluck_val (getprop [(''n'', JNum 0)] ''upserted'') ''_id'' = []"
    by (simp add: pluck_val_def elems_def eval_defs)
  from updateAll_no_match [OF a1 a2 3 a4 a5 a6 refl 8, of "[(''n'', JNum 0)]" friends] a7 a8 a9
  have A: "updateAll mem_driver levitate (ready marking friends)
           = (Done [], (ready marking friends)\<lparr>world := friends,
                issued := issued (ready marking friends) @ [ToArray ?snap,
                  Update (key_in []) (getprop levitate ''update'') (JObj [(''multi'', JBool True)])]\<rparr>)"
    by simp
  have b1: "makeQuery ?up = Inr [(''query'', JObj ?nq)]"
    by (simp add: eval_defs)
  have b2: "distinct (map fst ?up)" by (simp add: levitate_def)
  have b4: "JObj [(''_id'', JNum 1)]
             = (if getprop ?up ''sort'' = Undefined then JObj [(''_id'', JNum 1)]
                else if truthy (getprop ?up ''sort'') then getprop ?up ''sort''
                else Undefined)"
    and b5: "Undefined = (if truthy (getprop ?up ''skip'') then getprop ?up ''skip''
                          else Undefined)"
    and b6: "Null = (if truthy (getprop ?up ''limit'') then getprop ?up ''limit''
                     else Null)"
    by (simp_all add: eval_defs)
  let ?report = "[(''n'', JNum 1), (''upserted'', JArr [JObj [(''index'', JNum 0), (''_id'', JOid ''5'')]])]"
  let ?re = "\<lparr>c_query = key_in [JOid ''5''], c_fields = JObj [],
              c_sort = JObj [(''_id'', JNum 1)], c_skip = Undefined, c_limit = Null\<rparr>"
  have b7: "truthy (getprop ?up ''upsert'')" by (simp add: eval_defs)
  have b8: "col_update mem_driver (JObj ?nq) (getprop ?up ''update'')
                (JObj [(''upsert'', JBool True), (''multi'', JBool True)]) friends
            = (Inr ?report, ?w3)"
    by (simp add: eval_defs)
  have b10: "?re = \<lparr>c_query = key_in [JOid ''5''],
                     c_fields = (if getprop ?up ''fields'' = Undefined then JObj []
                                 else getprop ?up ''fields''),
                     c_sort = JObj [(''_id'', JNum 1)], c_skip = Undefined, c_limit = Null\<rparr>"
    by (simp add: eval_defs)
  have b11: "col_toArray mem_driver ?re ?w3 = (Inr [?new], ?w3)"
    by (simp add: eval_defs)
  from updateAll_no_match [OF b1 b2 3 b4 b5 b6 refl 8, THEN conjunct2, rule_format,
      of ?report ?w3 "[JOid ''5'']" ?re "[?new]" ?w3] b7 b8 b10 b11
  have B: "fst (updateAll mem_driver ?up (ready marking friends))
       = Done [JObj [(''_id'', JOid ''5''), (''age'', JNum 150), (''hobby'', JStr ''levitate''),
                     (''upserted'', JBool True)]]"
    by (simp add: pluck_val_def elems_def eval_defs)
  from A B show ?thesis by (simp add: eval_defs)
qed

section \<open>remove\<close>

text \<open>
  C5. \<^verbatim>\<open>remove\<close> first fetches the documents that match the normalised filter, with the
  caller's projection, sort, skip and limit on the cursor. The before-remove hooks get that
  list and may leave another one. When the list they leave is not empty, one delete is sent,
  filtered by \<^verbatim>\<open>{_id: {$in: ids}}\<close> over the keys of the list the hooks left; when it is empty
  no delete is sent. The after-remove hooks run on the list the before-remove hooks left, and
  what they leave is the result.
\<close>

theorem remove_by_hooked_list:
  assumes mq: "makeQuery params = Inr [(''query'', JObj nq)]"
    and dist: "distinct (map fst params)"
    and col: "collection drv s = (Done (), s1)"
    and snap: "snapshot =
                 \<lparr>c_query = JObj nq,
                  c_fields = (if getprop params ''fields'' = Undefined then JObj []
                              else getprop params ''fields''),
                  c_sort = (if truthy (getprop params ''sort'') then getprop params ''sort''
                            else Undefined),
                  c_skip = (if truthy (getprop params ''skip'') then getprop params ''skip''
                            else Undefined),
                  c_limit = (if truthy (getprop params ''limit'') then getprop params ''limit''
                             else Null)\<rparr>"
    and found: "col_toArray drv snapshot (world s1) = (Inr docs, w2)"
    and hooked: "runHooks (b_remove (h_before (hooks s1))) docs w2 = ((None, docs1), w3)"
    and del: "if docs1 = [] then w4 = w3 \<and> sent = []
              else col_remove drv (key_in (pluck docs1 ''_id'')) w3 = (Inr report, w4)
                   \<and> sent = [Remove (key_in (pluck docs1 ''_id''))]"
  shows "remove_op drv params s =
           finish (run_chain (a_remove (h_after (hooks s1))) docs1
                     (s1\<lparr>world := w4, issued := issued s1 @ ToArray snapshot # sent\<rparr>))"
proof -
  define p where "p = defaults [(''query'', JObj nq)] params"
  obtain nm: "''$$'' \<notin> fst ` set nq"
    using makeQuery_no_marker[OF mq] by auto
  note rdy = collection_Done[OF col]
  have dp: "distinct (map fst p)"
    by (simp add: p_def distinct_defaults del: defaults.simps)
  have gp: "getprop p k = (if k = ''query'' then JObj nq else getprop params k)" for k
    by (simp add: p_def getprop_defaults[OF dist] getprop_Cons getprop_Nil del: defaults.simps)
  have c1: "snapshot = cursor_for (defaults (defaults [(''query'', JObj nq)] p)
                                     [(''fields'', JObj [])])"
    unfolding snap
    by (simp add: cursor_for_completed[OF dp] gp del: defaults.simps)
  have find1: "find_op drv p s =
                 (Done docs, s1\<lparr>world := w2, issued := issued s1 @ [ToArray snapshot]\<rparr>)"
    using find_op_run[OF _ nm col c1 found] gp by simp
  let ?s2 = "s1\<lparr>world := w2, issued := issued s1 @ [ToArray snapshot]\<rparr>"
  have col2: "collection drv ?s2 = (Done (), ?s2)"
    using rdy by (simp add: collection_ready)
  have rc: "run_chain (b_remove (h_before (hooks s1))) docs ?s2
              = ((None, docs1), s1\<lparr>world := w3, issued := issued s1 @ [ToArray snapshot]\<rparr>)"
    using hooked by (simp add: run_chain_def)
  show ?thesis
  proof (cases "docs1 = []")
    case True
    with del have "w4 = w3" "sent = []" by simp_all
    then show ?thesis
      using True
      by (simp add: remove_op_def mq p_def[symmetric] find1 col2 rc Let_def del: defaults.simps)
  next
    case False
    with del have r: "col_remove drv (key_in (pluck docs1 ''_id'')) w3 = (Inr report, w4)"
      and sent: "sent = [Remove (key_in (pluck docs1 ''_id''))]" by simp_all
    show ?thesis
      using False r
      by (simp add: remove_op_def mq p_def[symmetric] find1 col2 rc sent issue_def Let_def
            del: defaults.simps)
  qed
qed

theorem remove_by_hooked_list_witness:
  "fst (remove_op mem_driver [(''query'', JObj [(''age'', JNum 17)])] (ready removing friends))
     = Done [JObj [(''_id'', JOid ''0''), (''name'', JStr ''Bob''), (''age'', JNum 17),
                   (''modifiedBefore'', JBool True), (''modifiedAfter'', JBool True)],
             JObj [(''_id'', JOid ''1''), (''name'', JStr ''Alice''), (''age'', JNum 17),
                   (''modifiedBefore'', JBool True), (''modifiedAfter'', JBool True)]]
   \<and> issued (snd (remove_op mem_driver [(''query'', JObj [(''age'', JNum 17)])]
                      (ready removing friends)))
     = [ToArray \<lparr>c_query = JObj [(''age'', JNum 17)], c_fields = JObj [], c_sort = Undefined,
                  c_skip = Undefined, c_limit = Null\<rparr>,
        Remove (key_in [JOid ''0'', JOid ''1''])]
   \<and> stored (world (snd (remove_op mem_driver [(''query'', JObj [(''age'', JNum 17)])]
                              (ready removing friends))))
     = [person 2 ''Chris'' 17, person 3 ''Paul'' 16, person 4 ''Waldo'' 20]"
proof -
  let ?params = "[(''query'', JObj [(''age'', JNum 17)])]"
  let ?nq = "[(''age'', JNum 17)]"
  let ?docs = "[person 0 ''Bob'' 17, person 1 ''Alice'' 17, person 2 ''Chris'' 17]"
  let ?m = "\<lambda>d. JObj (AList.update ''modifiedBefore'' (JBool True) (entries d))"
  let ?docs1 = "[?m (person 0 ''Bob'' 17), ?m (person 1 ''Alice'' 17)]"
  let ?w4 = "friends\<lparr>stored := [person 2 ''Chris'' 17, person 3 ''Paul'' 16, person 4 ''Waldo'' 20]\<rparr>"
  let ?snap = "\<lparr>c_query = JObj ?nq, c_fields = JObj [], c_sort = Undefined,
                c_skip = Undefined, c_limit = Null\<rparr>"
  have 1: "makeQuery ?params = Inr [(''query'', JObj ?nq)]"
    by (simp add: eval_defs)
  have 2: "distinct (map fst ?params)" by simp
  have 3: "collection mem_driver (ready removing friends) = (Done (), ready removing friends)"
    by (simp add: collection_ready ready_def)
  have 4: "?snap =
             \<lparr>c_query = JObj ?nq,
              c_fields = (if getprop ?params ''fields'' = Undefined then JObj []
                          else getprop ?params ''fields''),
              c_sort = (if truthy (getprop ?params ''sort'') then getprop ?params ''sort''
                        else Undefined),
              c_skip = (if truthy (getprop ?params ''skip'') then getprop ?params ''skip''
                        else Undefined),
              c_limit = (if truthy (getprop ?params ''limit'') then getprop ?params ''limit''
                         else Null)\<rparr>"
    by (simp add: eval_defs)
  have 5: "col_toArray mem_driver ?snap (world (ready removing friends)) = (Inr ?docs, friends)"
    by (simp add: eval_defs)
  have 6: "runHooks (b_remove (h_before (hooks (ready removing friends)))) ?docs friends
             = ((None, ?docs1), friends)"
    by (simp add: eval_defs)
  have 7: "if ?docs1 = [] then ?w4 = friends \<and> [Remove (key_in (pluck ?docs1 ''_id''))] = []
           else col_remove mem_driver (key_in (pluck ?docs1 ''_id'')) friends = (Inr [(''n'', JNum 2)], ?w4)
                \<and> [Remove (key_in (pluck ?docs1 ''_id''))] = [Remove (key_in (pluck ?docs1 ''_id''))]"
    by (simp add: eval_defs)
  from remove_by_hooked_list [OF 1 2 3 4 5 6 7]
  show ?thesis by (simp add: eval_defs)
qed

section \<open>insert\<close>

text \<open>
  C4. The assertion of \<^verbatim>\<open>insert\<close> tests \<^verbatim>\<open>_.compact([].concat(params.doc, params.docs))\<close>,
  which is an array and so truthy also when it is empty. With neither \<^verbatim>\<open>doc\<close> nor \<^verbatim>\<open>docs\<close>
  the call does not fail: the before-insert hooks run on the empty list and an insert of
  the empty list is sent to the store.
\<close>

theorem insert_without_documents:
  "fst (insert_op mem_driver [] (ready no_hooks friends)) = Done []
   \<and> issued (snd (insert_op mem_driver [] (ready no_hooks friends))) = [Insert []]"
  by (simp add: insert_op_def collection_ready ready_def no_hooks_def concat_arg.simps eval_defs)

section \<open>Fan-out\<close>

text \<open>
  C7, as stated, does not hold of \<^verbatim>\<open>_runHooks\<close>: on a sequence of two documents a handler
  is invoked once, with the whole sequence, where a fan-out invokes it twice, once with each
  document.
\<close>

theorem runHooks_is_not_a_fan_out:
  "runHooks [record_hook] [JNum 1, JNum 2] [] = ((None, [JNum 1, JNum 2]), [[JNum 1, JNum 2]])
   \<and> fanOut_spec [record_hook] [JNum 1, JNum 2] []
       = ((None, [JNum 1, JNum 2]), [[JNum 1], [JNum 2]])
   \<and> runHooks [record_hook] [JNum 1, JNum 2] [] \<noteq> fanOut_spec [record_hook] [JNum 1, JNum 2] []"
  by (simp add: record_hook_def)

text \<open>
  C7, amended. A run of \<^verbatim>\<open>_runHooks\<close> over a sequence of documents is one run of the chain
  over the whole sequence. Let the handlers \<open>pre\<close> pass one after the other from the
  sequence \<open>docs\<close>, and let every handler note in a trace its number in the chain and the
  payload it is invoked with. Whatever the number of documents: the trace of a run over
  \<open>pre\<close> shows each handler once, in the order of the chain, the first with the whole
  sequence \<open>docs\<close> and every other one with the whole payload its predecessor left; when
  the next handler \<open>h\<close> fails, the run over \<open>pre\<close>, \<open>h\<close> and the later handlers
  \<open>post\<close> ends with the error of \<open>h\<close>, and its trace shows the handlers of \<open>pre\<close> and
  \<open>h\<close> once each and no handler of \<open>post\<close>. The two stages of \<^verbatim>\<open>insert\<close> are such
  runs: when a before-insert handler fails on the sequence to insert, the call fails with its
  error, each handler up to the failing one has been invoked once, and nothing is sent to the
  store, so no document of the sequence is inserted; when the before-insert handlers \<open>pre\<close>
  pass, the one insert is sent with the sequence they left and the after-insert handlers
  \<open>late\<close> are invoked once each, the first with the whole sequence the store returned.
\<close>

theorem runHooks_one_run_over_the_sequence:
  assumes "passes pre docs w ps mid wm"
  shows "runHooks (traced_from 0 pre) docs (w, []) = ((None, mid), (wm, zip [0..<length pre] ps))
       \<and> (pre \<noteq> [] \<longrightarrow> hd ps = docs)
       \<and> (h mid wm = ((err, out), wo) \<and> truthy err \<longrightarrow>
            runHooks (traced_from 0 (pre @ h # post)) docs (w, [])
              = ((Some (Passed err), out),
                 (wo, zip [0..<length pre] ps @ [(length pre, mid)])))
       \<and> (h mid wm = ((err, out), wo) \<and> truthy err
            \<and> truthy (collection_name s) \<and> col_set s \<and> world s = (w, [])
            \<and> b_insert (h_before (hooks s)) = traced_from 0 (pre @ h # post)
            \<and> docs = compact (concat_arg (getprop params ''doc'')
                               @ concat_arg (getprop params ''docs''))
          \<longrightarrow> insert_op (traced_driver drv) params s
                = (Failed (Passed err),
                   s\<lparr>world := (wo, zip [0..<length pre] ps @ [(length pre, mid)])\<rparr>))
       \<and> (truthy (collection_name t) \<and> col_set t \<and> world t = (w, [])
            \<and> b_insert (h_before (hooks t)) = traced_from 0 pre
            \<and> a_insert (h_after (hooks t)) = traced_from (length pre) late
            \<and> docs = compact (concat_arg (getprop params ''doc'')
                               @ concat_arg (getprop params ''docs''))
            \<and> col_insert drv mid wm = (Inr inserted, wi)
            \<and> passes late inserted wi qs res wr
          \<longrightarrow> insert_op (traced_driver drv) params t
                = (Done res,
                   t\<lparr>world := (wr, zip [0..<length pre] ps
                                      @ zip [length pre..<length pre + length late] qs),
                     issued := issued t @ [Insert mid]\<rparr>)
              \<and> (late \<noteq> [] \<longrightarrow> hd qs = inserted))"
proof -
  have a: "runHooks (traced_from 0 pre) docs (w, [])
             = ((None, mid), (wm, zip [0..<length pre] ps))"
    using passes_traced[OF assms, of 0 "[]"] by simp
  have b: "pre \<noteq> [] \<longrightarrow> hd ps = docs"
    using passes_first[OF assms] passes_length[OF assms] by (cases ps) auto
  have c: "runHooks (traced_from 0 (pre @ h # post)) docs (w, [])
              = ((Some (Passed err), out),
                 (wo, zip [0..<length pre] ps @ [(length pre, mid)]))"
    if "h mid wm = ((err, out), wo)" "truthy err"
    using fails_traced[where h = h and i = 0 and l = "[]" and post = post, OF assms that]
    by simp
  have d: "insert_op (traced_driver drv) params s
                = (Failed (Passed err),
                   s\<lparr>world := (wo, zip [0..<length pre] ps @ [(length pre, mid)])\<rparr>)"
    if "h mid wm = ((err, out), wo)" "truthy err" "truthy (collection_name s)" "col_set s"
      "world s = (w, [])" "b_insert (h_before (hooks s)) = traced_from 0 (pre @ h # post)"
      "docs = compact (concat_arg (getprop params ''doc'')
                               @ concat_arg (getprop params ''docs''))"
    using insert_op_fails_traced[where h = h, OF assms that] .
  have e: "insert_op (traced_driver drv) params t
                = (Done res,
                   t\<lparr>world := (wr, zip [0..<length pre] ps
                                      @ zip [length pre..<length pre + length late] qs),
                     issued := issued t @ [Insert mid]\<rparr>)"
    if "truthy (collection_name t)" "col_set t" "world t = (w, [])"
       "b_insert (h_before (hooks t)) = traced_from 0 pre"
       "a_insert (h_after (hooks t)) = traced_from (length pre) late"
       "docs = compact (concat_arg (getprop params ''doc'')
                               @ concat_arg (getprop params ''docs''))"
       "col_insert drv mid wm = (Inr inserted, wi)"
       "passes late inserted wi qs res wr"
    using insert_op_passes_traced[OF assms that] .
  have f: "late \<noteq> [] \<longrightarrow> hd qs = inserted" if l: "passes late inserted wi qs res wr"
    using passes_first[OF l] passes_length[OF l] by (cases qs) auto
  from a b c d e f show ?thesis by blast
qed

theorem runHooks_one_run_over_the_sequence_witness:
  "passes [mark_hook ''checked''] newcomers friends [newcomers]
      [JObj [(''name'', JStr ''Bob''), (''checked'', JBool True)],
       JObj [(''name'', JStr ''Alice''), (''checked'', JBool True)]] friends
   \<and> runHooks (traced_from 0 [mark_hook ''checked'', fail_hook (JStr ''error''),
                               mark_hook ''never'']) newcomers (friends, [])
       = ((Some (Passed (JStr ''error'')),
           [JObj [(''name'', JStr ''Bob''), (''checked'', JBool True)],
            JObj [(''name'', JStr ''Alice''), (''checked'', JBool True)]]),
          (friends, [(0, newcomers),
                     (1, [JObj [(''name'', JStr ''Bob''), (''checked'', JBool True)],
                          JObj [(''name'', JStr ''Alice''), (''checked'', JBool True)]])]))
   \<and> hd [newcomers] = newcomers
   \<and> insert_op (traced_driver mem_driver) [(''docs'', JArr newcomers)]
        (ready (inspecting [mark_hook ''checked'', fail_hook (JStr ''error''),
                            mark_hook ''never''] []) (friends, []))
       = (Failed (Passed (JStr ''error'')),
          (ready (inspecting [mark_hook ''checked'', fail_hook (JStr ''error''),
                              mark_hook ''never''] []) (friends, []))
            \<lparr>world := (friends,
                        [(0, newcomers),
                         (1, [JObj [(''name'', JStr ''Bob''), (''checked'', JBool True)],
                              JObj [(''name'', JStr ''Alice''), (''checked'', JBool True)]])])\<rparr>)
   \<and> fst (insert_op (traced_driver mem_driver) [(''docs'', JArr newcomers)]
             (ready (inspecting [mark_hook ''checked''] [mark_hook ''stored'']) (friends, [])))
       = Done [JObj [(''name'', JStr ''Bob''), (''checked'', JBool True), (''_id'', JOid ''5''),
                     (''stored'', JBool True)],
               JObj [(''name'', JStr ''Alice''), (''checked'', JBool True), (''_id'', JOid ''6''),
                     (''stored'', JBool True)]]
   \<and> snd (world (snd (insert_op (traced_driver mem_driver) [(''docs'', JArr newcomers)]
             (ready (inspecting [mark_hook ''checked''] [mark_hook ''stored'']) (friends, [])))))
       = [(0, newcomers),
          (1, [JObj [(''name'', JStr ''Bob''), (''checked'', JBool True), (''_id'', JOid ''5'')],
               JObj [(''name'', JStr ''Alice''), (''checked'', JBool True), (''_id'', JOid ''6'')]])]"
proof -
  let ?mid = "[JObj [(''name'', JStr ''Bob''), (''checked'', JBool True)],
               JObj [(''name'', JStr ''Alice''), (''checked'', JBool True)]]"
  let ?inserted = "[JObj [(''name'', JStr ''Bob''), (''checked'', JBool True), (''_id'', JOid ''5'')],
                    JObj [(''name'', JStr ''Alice''), (''checked'', JBool True), (''_id'', JOid ''6'')]]"
  let ?res = "[JObj [(''name'', JStr ''Bob''), (''checked'', JBool True), (''_id'', JOid ''5''),
                     (''stored'', JBool True)],
               JObj [(''name'', JStr ''Alice''), (''checked'', JBool True), (''_id'', JOid ''6''),
                     (''stored'', JBool True)]]"
  let ?wi = "friends\<lparr>stored := stored friends @ ?inserted, fresh := 7\<rparr>"
  let ?params = "[(''docs'', JArr newcomers)]"
  let ?s = "ready (inspecting [mark_hook ''checked'', fail_hook (JStr ''error''),
                               mark_hook ''never''] []) (friends, [])"
  let ?t = "ready (inspecting [mark_hook ''checked''] [mark_hook ''stored'']) (friends, [])"
  have a: "passes [mark_hook ''checked''] newcomers friends [newcomers] ?mid friends"
    by code_simp
  have b: "fail_hook (JStr ''error'') ?mid friends = ((JStr ''error'', ?mid), friends)"
    by (simp add: fail_hook_def)
  have c: "truthy (JStr ''error'')" by simp
  have d: "truthy (collection_name ?s)" "col_set ?s" "world ?s = (friends, [])"
    "b_insert (h_before (hooks ?s)) = traced_from 0 ([mark_hook ''checked''] @ fail_hook (JStr ''error'') # [mark_hook ''never''])"
    "truthy (collection_name ?t)" "col_set ?t" "world ?t = (friends, [])"
    "b_insert (h_before (hooks ?t)) = traced_from 0 [mark_hook ''checked'']"
    "a_insert (h_after (hooks ?t)) = traced_from (length [mark_hook ''checked'']) [mark_hook ''stored'']"
    by (simp_all add: ready_def inspecting_def)
  have e: "newcomers = compact (concat_arg (getprop ?params ''doc'')
                                @ concat_arg (getprop ?params ''docs''))"
    by (simp add: getprop_def compact_def newcomers_def)
  have f: "col_insert mem_driver ?mid friends = (Inr ?inserted, ?wi)"
    by (simp add: mem_driver_def friends_def decimal.simps digit_def getprop_def)
  have g: "passes [mark_hook ''stored''] ?inserted ?wi [?inserted] ?res ?wi"
    by code_simp
  note t = runHooks_one_run_over_the_sequence
             [where h = "fail_hook (JStr ''error'')" and post = "[mark_hook ''never'']"
                and err = "JStr ''error''" and out = ?mid and wo = friends
                and s = ?s and t = ?t and params = ?params and drv = mem_driver
                and late = "[mark_hook ''stored'']" and inserted = ?inserted and wi = ?wi
                and qs = "[?inserted]" and res = ?res and wr = ?wi, OF a]
  from t b c
  have B: "runHooks (traced_from 0 ([mark_hook ''checked''] @ fail_hook (JStr ''error'') # [mark_hook ''never''])) newcomers (friends, [])
       = ((Some (Passed (JStr ''error'')), ?mid), (friends, [(0, newcomers), (1, ?mid)]))"
    by simp
  from t b c d e
  have C: "insert_op (traced_driver mem_driver) ?params ?s
       = (Failed (Passed (JStr ''error'')), ?s\<lparr>world := (friends, [(0, newcomers), (1, ?mid)])\<rparr>)"
    by simp
  from t d e f g
  have D: "insert_op (traced_driver mem_driver) ?params ?t
       = (Done ?res, ?t\<lparr>world := (?wi, [(0, newcomers), (1, ?inserted)]), issued := issued ?t @ [Insert ?mid]\<rparr>)"
    by simp
  from t have E: "hd [newcomers] = newcomers" by simp
  from a B C D E show ?thesis by simp
qed

section \<open>The store-key transformers\<close>

text \<open>
  C8. The transformers \<^verbatim>\<open>_id\<close> and \<^verbatim>\<open>_ids\<close> call \<^verbatim>\<open>Tenge.makeOID\<close>, which is not defined
  (\<^verbatim>\<open>makeOID\<close> is a member of the prototype). A query with \<^verbatim>\<open>$$._id\<close> throws a
  \<^verbatim>\<open>TypeError\<close>; a query with \<^verbatim>\<open>$$._ids\<close> keeps the textual ids as they are, since
  \<^verbatim>\<open>_.map\<close> with an undefined iteratee is the identity.
\<close>

theorem makeQuery_store_key_transformers:
  "makeQuery [(''query'', JObj [(''$$'', JObj [(''_id'', JStr ''55694ef8a8d8596e1b0d8830'')])])]
     = Inl (TypeError ''Tenge.makeOID is not a function'')
   \<and> makeQuery [(''query'', JObj [(''$$'', JObj [(''_ids'', JArr [JStr ''55694ef8a8d8596e1b0d8830''])])])]
     = Inr [(''query'', JObj [(''_id'', JObj [(''$in'', JArr [JStr ''55694ef8a8d8596e1b0d8830''])])])]"
  by (simp add: eval_defs call_member_def Tenge_makeOID_def map_val_def elems_def)

section \<open>count and size\<close>




section \<open>Query normalisation and the caller's objects\<close>

text \<open>
  C10. \<^verbatim>\<open>_makeQuery\<close> builds a new top-level query object, but the copy shares the caller's
  nested objects and \<^verbatim>\<open>_.merge\<close> writes into them. For the caller's
  \<^verbatim>\<open>params = {query: {id: {$ne: 'a'}, $$: {ids: ['b']}}}\<close>, the fragment
  \<^verbatim>\<open>{id: {$in: ['b']}}\<close> is merged into the caller's own object \<^verbatim>\<open>{$ne: 'a'}\<close>: after the
  call \<^verbatim>\<open>params.query.id\<close> is \<^verbatim>\<open>{$ne: 'a', $in: ['b']}\<close>, so \<^verbatim>\<open>params\<close> is no longer deeply
  equal to what it was. The returned query is the one the normalisation on values gives.
\<close>

theorem makeQuery_writes_into_the_callers_query:
  "deep 5 caller_heap (Ref 0)
     = Some (JObj [(''query'', JObj [(''id'', JObj [(''$ne'', JStr ''a'')]),
                                     (''$$'', JObj [(''ids'', JArr [JStr ''b''])])])])
   \<and> h_makeQuery 5 caller_heap (Ref 0) = Some (Inr (Ref 10), after_heap)
   \<and> deep 5 after_heap (Ref 0)
     = Some (JObj [(''query'', JObj [(''id'', JObj [(''$ne'', JStr ''a''),
                                                    (''$in'', JArr [JStr ''b''])]),
                                     (''$$'', JObj [(''ids'', JArr [JStr ''b''])])])])
   \<and> deep 5 after_heap (Ref 10)
     = Some (JObj [(''query'', JObj [(''id'', JObj [(''$ne'', JStr ''a''),
                                                    (''$in'', JArr [JStr ''b''])])])])
   \<and> makeQuery [(''query'', JObj [(''id'', JObj [(''$ne'', JStr ''a'')]),
                                   (''$$'', JObj [(''ids'', JArr [JStr ''b''])])])]
     = Inr [(''query'', JObj [(''id'', JObj [(''$ne'', JStr ''a''),
                                             (''$in'', JArr [JStr ''b''])])])]"
  by code_simp

end
